theory Spec2Isabelle
  imports Complex_Main "HOL-Library.Log_Nat"
begin

section \<open>Interactive fitting widget (\<^verbatim>\<open>src/iminuit/qtwidget.py\<close>)\<close>

text \<open>
  The widget is modelled by explicit state passing. A method of a widget class becomes a
  function from the state before the call to the state after it, and a raised exception
  is the \<open>Inl\<close> branch of a sum.
\<close>

subsection \<open>Floating-point numbers\<close>

text \<open>
  A Python float is modelled by the real number it denotes, and every arithmetic
  operation on floats rounds its exact result to the nearest number with a significand of
  53 bits, ties to the even significand, as the IEEE 754 binary64 operations of Python
  do. The exponent range is not bounded: overflow to an infinity, subnormal numbers, NaN
  and the sign of zero are outside the model. The two infinities that a parameter limit
  can take are constructors of the type \<open>flt\<close> further down.

  \<open>expo x\<close> is the exponent \<open>e\<close> with \<open>2^e \<le> |x| < 2^(e+1)\<close>, \<open>rne\<close> rounds to the nearest
  integer, ties to even, and \<open>fl\<close> rounds a real number to a float. A decimal literal of
  the source denotes the float nearest to it: \<^verbatim>\<open>1e-2\<close> is \<open>fl (1 / 100)\<close>.
\<close>

definition expo :: "real \<Rightarrow> int" where
  "expo x = (if 1 \<le> \<bar>x\<bar> then bitlen \<lfloor>\<bar>x\<bar>\<rfloor> - 1 else - bitlen (\<lceil>1 / \<bar>x\<bar>\<rceil> - 1))"

definition rne :: "real \<Rightarrow> int" where
  "rne x = (let n = \<lfloor>x\<rfloor>; f = x - of_int n
            in if f < 1 / 2 then n else if 1 / 2 < f then n + 1 else if even n then n else n + 1)"

definition fl :: "real \<Rightarrow> real" where
  "fl x = of_int (rne (x * 2 powi (52 - expo x))) * 2 powi (expo x - 52)"

definition fadd :: "real \<Rightarrow> real \<Rightarrow> real" where
  "fadd x y = fl (x + y)"

definition fsub :: "real \<Rightarrow> real \<Rightarrow> real" where
  "fsub x y = fl (x - y)"

definition fmul :: "real \<Rightarrow> real \<Rightarrow> real" where
  "fmul x y = fl (x * y)"

definition fdiv :: "real \<Rightarrow> real \<Rightarrow> real" where
  "fdiv x y = fl (x / y)"

subsection \<open>Errors\<close>

datatype error =
  ZeroDivisionError   \<comment> \<open>\<^verbatim>\<open>_float_to_int\<close> with \<^verbatim>\<open>_max == _min\<close>\<close>
| PlotError           \<comment> \<open>the plot routine raised and \<^verbatim>\<open>raise_on_exception\<close> is set\<close>
| SignalDepth         \<comment> \<open>nested signal delivery deeper than the unrolling of the model\<close>

definition bindE :: "error + 'a \<Rightarrow> ('a \<Rightarrow> error + 'b) \<Rightarrow> error + 'b" where
  "bindE r f = (case r of Inl e \<Rightarrow> Inl e | Inr x \<Rightarrow> f x)"

subsection \<open>FloatSlider\<close>

text \<open>
  The fields \<^verbatim>\<open>_min\<close>, \<^verbatim>\<open>_max\<close>, \<^verbatim>\<open>_value\<close> of the class, the integer position of the
  underlying \<^verbatim>\<open>QSlider\<close> (range \<open>0 .. 10^8\<close>), the text of the paired label (the number
  whose \<^verbatim>\<open>.3g\<close> rendering is shown, \<open>None\<close> while the label is empty), and Qt's
  \<^verbatim>\<open>blockSignals\<close>, \<^verbatim>\<open>setEnabled\<close> and \<^verbatim>\<open>setTracking\<close> flags. \<open>emitted\<close> logs the
  argument of every call of \<^verbatim>\<open>floatValueChanged.emit\<close>, whether or not Qt delivers it.
\<close>

record float_slider =
  pos :: int
  s_min :: real
  s_max :: real
  s_value :: real
  label :: "real option"
  blocked :: bool
  enabled :: bool
  tracking :: bool
  emitted :: "real list"

text \<open>
  A slider lives inside a larger state \<open>'w\<close> (a window, or the slider with a log of what
  its listener received). A signal is delivered by a synchronous call of the connected
  slot, which may change any part of \<open>'w\<close>, the slider included; so the methods work on
  \<open>'w\<close> through a reference: how to read the slider, how to write it, and the slot
  connected to \<^verbatim>\<open>floatValueChanged\<close>.
\<close>

record 'w slider_ref =
  get_slider :: "'w \<Rightarrow> float_slider"
  put_slider :: "float_slider \<Rightarrow> 'w \<Rightarrow> 'w"
  connected :: "real \<Rightarrow> 'w \<Rightarrow> error + 'w"

definition FloatSlider_init :: float_slider where
  "FloatSlider_init =
     \<lparr>pos = 5 * 10 ^ 7, s_min = 0, s_max = 1, s_value = 1 / 2, label = None,
      blocked = False, enabled = True, tracking = True, emitted = []\<rparr>"

text \<open>
  Python's \<^verbatim>\<open>int(x)\<close> on a float truncates towards zero. In \<^verbatim>\<open>value / 1e8\<close> the integer
  \<^verbatim>\<open>value\<close> is converted to a float first. A float division by zero raises.
\<close>

definition py_int :: "real \<Rightarrow> int" where
  "py_int x = (if 0 \<le> x then \<lfloor>x\<rfloor> else \<lceil>x\<rceil>)"

definition int_to_float :: "float_slider \<Rightarrow> int \<Rightarrow> real" where
  "int_to_float s v =
     fadd (s_min s) (fmul (fdiv (fl (real_of_int v)) (10 ^ 8)) (fsub (s_max s) (s_min s)))"

definition float_to_int :: "float_slider \<Rightarrow> real \<Rightarrow> error + int" where
  "float_to_int s v =
     (if fsub (s_max s) (s_min s) = 0 then Inl ZeroDivisionError
      else Inr (py_int (fmul (fdiv (fsub v (s_min s)) (fsub (s_max s) (s_min s))) (10 ^ 8))))"

text \<open>
  \<^verbatim>\<open>_emit_float_value_changed(value=None)\<close>: the slot of the integer \<^verbatim>\<open>valueChanged\<close>
  signal, also called directly by \<^verbatim>\<open>setValue\<close>.
\<close>

definition emit_float_value_changed :: "'w slider_ref \<Rightarrow> int option \<Rightarrow> 'w \<Rightarrow> error + 'w" where
  "emit_float_value_changed r v w =
     (let s0 = get_slider r w;
          s1 = (case v of None \<Rightarrow> s0 | Some p \<Rightarrow> s0\<lparr>s_value := int_to_float s0 p\<rparr>);
          s2 = s1\<lparr>label := Some (s_value s1), emitted := emitted s1 @ [s_value s1]\<rparr>;
          w2 = put_slider r s2 w
      in if blocked s2 then Inr w2 else connected r (s_value s2) w2)"

text \<open>
  \<^verbatim>\<open>QSlider.setValue\<close> (the \<^verbatim>\<open>super().setValue\<close> of the class): the position is bounded to
  the range, and \<^verbatim>\<open>valueChanged\<close> is emitted when it changes and signals are not blocked.
\<close>

definition QSlider_setValue :: "'w slider_ref \<Rightarrow> int \<Rightarrow> 'w \<Rightarrow> error + 'w" where
  "QSlider_setValue r p w =
     (let s = get_slider r w; q = max 0 (min (10 ^ 8) p)
      in if q = pos s then Inr w
         else let w1 = put_slider r (s\<lparr>pos := q\<rparr>) w
              in if blocked s then Inr w1 else emit_float_value_changed r (Some q) w1)"

definition blockSignals :: "'w slider_ref \<Rightarrow> bool \<Rightarrow> 'w \<Rightarrow> 'w" where
  "blockSignals r b w = put_slider r ((get_slider r w)\<lparr>blocked := b\<rparr>) w"

definition setValue :: "'w slider_ref \<Rightarrow> real \<Rightarrow> 'w \<Rightarrow> error + 'w" where
  "setValue r v w =
     (let s = get_slider r w
      in if v < s_min s then
           bindE (QSlider_setValue r 0 (put_slider r (s\<lparr>s_value := s_min s\<rparr>) w))
             (emit_float_value_changed r None)
         else if v > s_max s then
           bindE (QSlider_setValue r (10 ^ 8) (put_slider r (s\<lparr>s_value := s_max s\<rparr>) w))
             (emit_float_value_changed r None)
         else
           (let w1 = blockSignals r True (put_slider r (s\<lparr>s_value := v\<rparr>) w)
            in bindE (float_to_int (get_slider r w1) v) (\<lambda>p.
               bindE (QSlider_setValue r p w1) (\<lambda>w2.
               Inr (blockSignals r False w2)))))"

definition setMinimum :: "'w slider_ref \<Rightarrow> real \<Rightarrow> 'w \<Rightarrow> error + 'w" where
  "setMinimum r min_value w =
     (let s = get_slider r w
      in if s_max s \<le> min_value then Inr w
         else setValue r (s_value s) (put_slider r (s\<lparr>s_min := min_value\<rparr>) w))"

definition setMaximum :: "'w slider_ref \<Rightarrow> real \<Rightarrow> 'w \<Rightarrow> error + 'w" where
  "setMaximum r max_value w =
     (let s = get_slider r w
      in if s_min s \<ge> max_value then Inr w
         else setValue r (s_value s) (put_slider r (s\<lparr>s_max := max_value\<rparr>) w))"

definition "value" :: "float_slider \<Rightarrow> real" where
  "value s = s_value s"

text \<open>
  A slider on its own, with a listener that only records what it is sent: the state is
  the slider paired with the list of delivered notifications.
\<close>

definition lone :: "(float_slider \<times> real list) slider_ref" where
  "lone = \<lparr>get_slider = fst, put_slider = (\<lambda>s w. (s, snd w)),
           connected = (\<lambda>v w. Inr (fst w, snd w @ [v]))\<rparr>"

text \<open>A slider to which no listener is connected yet: the state is the slider itself.\<close>

definition bare :: "float_slider slider_ref" where
  "bare = \<lparr>get_slider = (\<lambda>s. s), put_slider = (\<lambda>s w. s), connected = (\<lambda>v w. Inr w)\<rparr>"

subsection \<open>Floats with infinities, and the module-level helpers\<close>

text \<open>
  A limit of a parameter is a float that may be infinite: \<^verbatim>\<open>np.isfinite\<close> is \<open>isfinite\<close>,
  \<^verbatim>\<open>sys.float_info.max\<close> is \<open>float_max\<close>.
\<close>

datatype flt = MInf | Fin real | PInf

definition isfinite :: "flt \<Rightarrow> bool" where
  "isfinite x = (case x of Fin a \<Rightarrow> True | _ \<Rightarrow> False)"

definition float_max :: real where
  "float_max = (2 - 1 / 2 ^ 52) * 2 ^ 1023"

definition make_finite :: "flt \<Rightarrow> real" where
  "make_finite x = (case x of MInf \<Rightarrow> - 1 * float_max | PInf \<Rightarrow> 1 * float_max | Fin a \<Rightarrow> a)"

definition guess_initial_step :: "real \<Rightarrow> flt \<Rightarrow> flt \<Rightarrow> real" where
  "guess_initial_step val vmin vmax =
     (case (vmin, vmax) of (Fin a, Fin b) \<Rightarrow> fmul (fl (1 / 100)) (fsub b a) | _ \<Rightarrow> fl (1 / 100))"

subsection \<open>The minimizer and the other collaborators\<close>

text \<open>
  The state of the external minimizer that the widget reads and writes: values, limits
  and fixed flags per parameter (a parameter is identified by its index in
  \<^verbatim>\<open>minuit.parameters\<close>; the names are unique, so indexing by name and by position agree),
  the number of parameters, and the two flags read for the verdict of a fit.
\<close>

record minuit =
  m_values :: "nat \<Rightarrow> real"
  m_limits :: "nat \<Rightarrow> flt \<times> flt"
  m_fixed :: "nat \<Rightarrow> bool"
  npar :: nat
  m_valid :: bool
  m_accurate :: bool

text \<open>
  What \<^verbatim>\<open>make_widget\<close> is given and cannot be read from this file: the minimizer's
  algorithms and its \<^verbatim>\<open>reset\<close> as functions on its state, whether
  \<^verbatim>\<open>minuit.visualize(plot, **kwargs)\<close> returns normally on a state, and the flag
  \<^verbatim>\<open>raise_on_exception\<close>.
\<close>

record env =
  migrad :: "minuit \<Rightarrow> minuit"
  scipy :: "minuit \<Rightarrow> minuit"
  simplex :: "minuit \<Rightarrow> minuit"
  minuit_reset :: "minuit \<Rightarrow> minuit"
  visualize_ok :: "minuit \<Rightarrow> bool"
  raise_on_exception :: bool

subsection \<open>QDoubleSpinBox\<close>

text \<open>
  Qt rounds the value and the ends of the range of a spin box to the displayed decimals
  (2 by default, and the file never changes them) by writing the number with that many
  decimals, ties away from zero, and reading the text back as a float; an infinity stays
  an infinity. Then Qt keeps the value inside the range. After construction every
  \<^verbatim>\<open>setValue\<close> of a spin box in this file is bracketed by \<^verbatim>\<open>blockSignals(True)\<close> and
  \<^verbatim>\<open>blockSignals(False)\<close>, and during construction no slot is connected yet, so \<^verbatim>\<open>setValue\<close>
  never calls a slot.
\<close>

record spin_box =
  sb_value :: real
  sb_minimum :: real
  sb_maximum :: real
  sb_step :: real
  sb_blocked :: bool

definition QDoubleSpinBox_init :: spin_box where
  "QDoubleSpinBox_init =
     \<lparr>sb_value = 0, sb_minimum = 0, sb_maximum = fl (9999 / 100), sb_step = 1,
      sb_blocked = False\<rparr>"

definition round_half_away :: "real \<Rightarrow> int" where
  "round_half_away x = (if 0 \<le> x then \<lfloor>x + 1 / 2\<rfloor> else - \<lfloor>- x + 1 / 2\<rfloor>)"

definition QDoubleSpinBox_round :: "real \<Rightarrow> real" where
  "QDoubleSpinBox_round x = fl (real_of_int (round_half_away (x * 100)) / 100)"

definition bound :: "spin_box \<Rightarrow> flt \<Rightarrow> real" where
  "bound b x =
     (case x of MInf \<Rightarrow> sb_minimum b
      | PInf \<Rightarrow> sb_maximum b
      | Fin a \<Rightarrow> (if a < sb_minimum b then sb_minimum b
                  else if a > sb_maximum b then sb_maximum b else a))"

definition rounded :: "flt \<Rightarrow> flt" where
  "rounded x = (case x of Fin a \<Rightarrow> Fin (QDoubleSpinBox_round a) | _ \<Rightarrow> x)"

definition QDoubleSpinBox_setValue :: "flt \<Rightarrow> spin_box \<Rightarrow> spin_box" where
  "QDoubleSpinBox_setValue x b = b\<lparr>sb_value := bound b (rounded x)\<rparr>"

text \<open>
  \<open>set_range\<close> is the private \<^verbatim>\<open>setRange\<close> of the spin box, which the three public methods
  call with rounded arguments.
\<close>

definition set_range :: "real \<Rightarrow> real \<Rightarrow> spin_box \<Rightarrow> spin_box" where
  "set_range lo hi b =
     (let b1 = b\<lparr>sb_minimum := lo, sb_maximum := (if lo < hi then hi else lo)\<rparr>
      in b1\<lparr>sb_value := bound b1 (Fin (sb_value b1))\<rparr>)"

definition QDoubleSpinBox_setRange :: "real \<Rightarrow> real \<Rightarrow> spin_box \<Rightarrow> spin_box" where
  "QDoubleSpinBox_setRange lo hi b =
     set_range (QDoubleSpinBox_round lo) (QDoubleSpinBox_round hi) b"

definition QDoubleSpinBox_setMinimum :: "real \<Rightarrow> spin_box \<Rightarrow> spin_box" where
  "QDoubleSpinBox_setMinimum lo b =
     (let m = QDoubleSpinBox_round lo
      in set_range m (if sb_maximum b > m then sb_maximum b else m) b)"

definition QDoubleSpinBox_setMaximum :: "real \<Rightarrow> spin_box \<Rightarrow> spin_box" where
  "QDoubleSpinBox_setMaximum hi b =
     (let m = QDoubleSpinBox_round hi
      in set_range (if sb_minimum b < m then sb_minimum b else m) m b)"

definition sb_blockSignals :: "bool \<Rightarrow> spin_box \<Rightarrow> spin_box" where
  "sb_blockSignals f b = b\<lparr>sb_blocked := f\<rparr>"

subsection \<open>Parameter: the panel of one parameter\<close>

text \<open>
  \<open>fix_checked\<close> and \<open>fit_checked\<close> are the checked states of the two push buttons. The
  value label is the \<open>label\<close> of the slider record (one Qt object, shared by both).
\<close>

record parameter =
  par :: nat
  slider :: float_slider
  tmin :: spin_box
  tmax :: spin_box
  fix_checked :: bool
  fit_checked :: bool
  step :: real
  original_value :: real
  p_original_limits :: "real \<times> real"

definition Parameter_init :: "minuit \<Rightarrow> nat \<Rightarrow> error + parameter" where
  "Parameter_init m p =
     (let val = m_values m p;
          vmin = fst (m_limits m p);
          vmax = snd (m_limits m p);
          stp = guess_initial_step val vmin vmax;
          vmin2 = (case vmin of Fin a \<Rightarrow> a | _ \<Rightarrow> fsub val (fmul 100 stp));
          vmax2 = (case vmax of Fin b \<Rightarrow> b | _ \<Rightarrow> fadd val (fmul 100 stp));
          range0 = QDoubleSpinBox_setRange (make_finite MInf) (make_finite PInf)
                     QDoubleSpinBox_init;
          tmin1 = (QDoubleSpinBox_setValue (Fin vmin2) range0)
                    \<lparr>sb_step := fmul (fl (1 / 10)) (fsub vmax2 vmin2)\<rparr>;
          tmax1 = (QDoubleSpinBox_setValue (Fin vmax2) range0)
                    \<lparr>sb_step := fmul (fl (1 / 10)) (fsub vmax2 vmin2)\<rparr>
      in bindE (setMinimum bare vmin2 FloatSlider_init) (\<lambda>s1.
         bindE (setMaximum bare vmax2 s1) (\<lambda>s2.
         bindE (setValue bare val s2) (\<lambda>s3.
         Inr \<lparr>par = p, slider = s3\<lparr>label := Some val\<rparr>,
              tmin = QDoubleSpinBox_setMinimum (make_finite vmin) tmin1,
              tmax = QDoubleSpinBox_setMaximum (make_finite vmax) tmax1,
              fix_checked = m_fixed m p, fit_checked = False, step = stp,
              original_value = val, p_original_limits = (vmin2, vmax2)\<rparr>))))"

subsection \<open>MainWindow\<close>

datatype algo = Migrad | Scipy | Simplex

text \<open>
  What the canvas shows after the last drawing: nothing yet, the traceback of a failed
  plot, or the plot with the FCN text (computed from the fit result or from the current
  values) and, when there is one, the verdict text.
\<close>

datatype frame = Blank | Traceback | Plot bool "string option"

text \<open>
  \<open>mstate\<close> is the one minimizer object that the window and all its panels share;
  \<open>results_text\<close> is the minimizer state whose HTML summary the results tab shows.
\<close>

record main_window =
  mstate :: minuit
  parameters :: "parameter list"
  algo_choice :: algo
  update_button :: bool
  results_text :: "minuit option"
  original_values :: "nat \<Rightarrow> real"
  original_limits :: "nat \<Rightarrow> flt \<times> flt"
  canvas :: frame

definition upd_panel :: "nat \<Rightarrow> (parameter \<Rightarrow> parameter) \<Rightarrow> main_window \<Rightarrow> main_window" where
  "upd_panel i f w = w\<lparr>parameters := (parameters w)[i := f (parameters w ! i)]\<rparr>"

definition upd_minuit :: "(minuit \<Rightarrow> minuit) \<Rightarrow> main_window \<Rightarrow> main_window" where
  "upd_minuit f w = w\<lparr>mstate := f (mstate w)\<rparr>"

text \<open>
  \<^verbatim>\<open>Parameter.on_val_change\<close>, the slot of the slider's \<^verbatim>\<open>floatValueChanged\<close>; \<open>cb\<close> is the
  \<^verbatim>\<open>callback\<close> the panel was constructed with.
\<close>

definition on_val_change ::
  "(main_window \<Rightarrow> error + main_window) \<Rightarrow> nat \<Rightarrow> real \<Rightarrow> main_window \<Rightarrow> error + main_window" where
  "on_val_change cb i val w =
     cb (upd_minuit (\<lambda>m. m\<lparr>m_values := (m_values m)(par (parameters w ! i) := val)\<rparr>) w)"

text \<open>The slider of panel \<open>i\<close> of a window, with its slot.\<close>

definition slider_at ::
  "(main_window \<Rightarrow> error + main_window) \<Rightarrow> nat \<Rightarrow> main_window slider_ref" where
  "slider_at cb i =
     \<lparr>get_slider = (\<lambda>w. slider (parameters w ! i)),
      put_slider = (\<lambda>s. upd_panel i (\<lambda>p. p\<lparr>slider := s\<rparr>)),
      connected = on_val_change cb i\<rparr>"

definition on_min_change ::
  "(main_window \<Rightarrow> error + main_window) \<Rightarrow> nat \<Rightarrow> main_window \<Rightarrow> error + main_window" where
  "on_min_change cb i w =
     (let p = parameters w ! i; t = sb_value (tmin p)
      in if t \<ge> sb_value (tmax p) then
           Inr (upd_panel i (\<lambda>p. p\<lparr>tmin := sb_blockSignals False
                  (QDoubleSpinBox_setValue (fst (m_limits (mstate w) (par p)))
                     (sb_blockSignals True (tmin p)))\<rparr>) w)
         else
           bindE (setMinimum (slider_at cb i) t w) (\<lambda>w1.
             let k = par (parameters w1 ! i); lim = m_limits (mstate w1) k
             in Inr (upd_minuit (\<lambda>m. m\<lparr>m_limits := (m_limits m)(k := (Fin t, snd lim))\<rparr>) w1)))"

definition on_max_change ::
  "(main_window \<Rightarrow> error + main_window) \<Rightarrow> nat \<Rightarrow> main_window \<Rightarrow> error + main_window" where
  "on_max_change cb i w =
     (let p = parameters w ! i; t = sb_value (tmax p)
      in if t \<le> sb_value (tmin p) then
           Inr (upd_panel i (\<lambda>p. p\<lparr>tmax := sb_blockSignals False
                  (QDoubleSpinBox_setValue (snd (m_limits (mstate w) (par p)))
                     (sb_blockSignals True (tmax p)))\<rparr>) w)
         else
           bindE (setMaximum (slider_at cb i) t w) (\<lambda>w1.
             let k = par (parameters w1 ! i); lim = m_limits (mstate w1) k
             in Inr (upd_minuit (\<lambda>m. m\<lparr>m_limits := (m_limits m)(k := (fst lim, Fin t))\<rparr>) w1)))"

definition on_fix_toggled :: "nat \<Rightarrow> main_window \<Rightarrow> main_window" where
  "on_fix_toggled i w =
     (let p = parameters w ! i;
          w1 = upd_minuit (\<lambda>m. m\<lparr>m_fixed := (m_fixed m)(par p := fix_checked p)\<rparr>) w
      in if fix_checked p then upd_panel i (\<lambda>p. p\<lparr>fit_checked := False\<rparr>) w1 else w1)"

definition on_fit_toggled ::
  "(main_window \<Rightarrow> error + main_window) \<Rightarrow> nat \<Rightarrow> main_window \<Rightarrow> error + main_window" where
  "on_fit_toggled cb i w =
     (let p = parameters w ! i;
          w1 = upd_panel i (\<lambda>p. p\<lparr>slider := (slider p)\<lparr>enabled := \<not> fit_checked p\<rparr>\<rparr>) w;
          w2 = (if fit_checked p then
                  upd_minuit (\<lambda>m. m\<lparr>m_fixed := (m_fixed m)(par p := False)\<rparr>)
                    (upd_panel i (\<lambda>p. p\<lparr>fix_checked := False\<rparr>) w1)
                else w1)
      in cb w2)"

definition reset ::
  "(main_window \<Rightarrow> error + main_window) \<Rightarrow> nat \<Rightarrow> real option \<Rightarrow> bool \<Rightarrow> main_window
     \<Rightarrow> error + main_window" where
  "reset cb i val limits w =
     (let r = slider_at cb i
      in bindE
           (if limits then
              bindE (setMinimum r (fst (p_original_limits (parameters w ! i)))
                       (blockSignals r True w)) (\<lambda>w1.
              bindE (setMaximum r (snd (p_original_limits (parameters w1 ! i)))
                       (blockSignals r True w1)) (\<lambda>w2.
              Inr (upd_panel i (\<lambda>p. p
                     \<lparr>tmin := sb_blockSignals False
                        (QDoubleSpinBox_setValue (Fin (fst (p_original_limits p)))
                           (sb_blockSignals True (tmin p))),
                      tmax := sb_blockSignals False
                        (QDoubleSpinBox_setValue (Fin (snd (p_original_limits p)))
                           (sb_blockSignals True (tmax p)))\<rparr>) w2)))
            else Inr w)
           (\<lambda>w3.
              let v = (case val of None \<Rightarrow> original_value (parameters w3 ! i) | Some x \<Rightarrow> x)
              in bindE (setValue r v (blockSignals r True w3)) (\<lambda>w4.
                 Inr (blockSignals r False
                        (upd_panel i (\<lambda>p. p\<lparr>slider := (slider p)\<lparr>label := Some v\<rparr>\<rparr>) w4)))))"

text \<open>A \<^verbatim>\<open>for\<close> loop over indices whose body may raise.\<close>

fun for_each :: "nat list \<Rightarrow> (nat \<Rightarrow> 'w \<Rightarrow> error + 'w) \<Rightarrow> 'w \<Rightarrow> error + 'w" where
  "for_each [] f w = Inr w"
| "for_each (i # is) f w = bindE (f i w) (for_each is f)"

definition fit :: "env \<Rightarrow> main_window \<Rightarrow> bool \<times> main_window" where
  "fit E w =
     (case algo_choice w of
        Migrad \<Rightarrow> (True, upd_minuit (migrad E) w)
      | Scipy \<Rightarrow> (True, upd_minuit (scipy E) w)
      | Simplex \<Rightarrow> (False, upd_minuit (simplex E) w))"

definition plot_with_frame :: "env \<Rightarrow> bool \<Rightarrow> bool \<Rightarrow> main_window \<Rightarrow> error + main_window" where
  "plot_with_frame E from_fit report_success w =
     (if \<not> visualize_ok E (mstate w) then
        (if raise_on_exception E then Inl PlotError else Inr (w\<lparr>canvas := Traceback\<rparr>))
      else Inr (w\<lparr>canvas := Plot from_fit
                  (if from_fit \<and> report_success then
                     Some (if m_valid (mstate w) \<and> m_accurate (mstate w)
                           then ''success'' else ''FAILURE'')
                   else None)\<rparr>))"

text \<open>
  The first part of \<^verbatim>\<open>do_fit\<close>, up to the test of \<^verbatim>\<open>plot\<close>: it is all of
  \<^verbatim>\<open>do_fit(plot=False)\<close>, which \<^verbatim>\<open>on_parameter_change\<close> calls, and \<^verbatim>\<open>do_fit\<close> below
  continues it with the call of \<^verbatim>\<open>on_parameter_change(from_fit=True, ...)\<close>.
\<close>

definition do_fit_no_plot ::
  "env \<Rightarrow> (main_window \<Rightarrow> error + main_window) \<Rightarrow> main_window \<Rightarrow> error + bool \<times> main_window" where
  "do_fit_no_plot E cb w =
     (let rw = fit E w
      in bindE (for_each [0 ..< length (parameters (snd rw))]
                  (\<lambda>i w'. reset cb i (Some (m_values (mstate w') i)) False w') (snd rw))
           (\<lambda>w2. Inr (fst rw, w2)))"

definition fix_all_but_fit :: "main_window \<Rightarrow> main_window" where
  "fix_all_but_fit w =
     fold (\<lambda>i. upd_minuit (\<lambda>m. m\<lparr>m_fixed := (m_fixed m)(i := \<not> fit_checked (parameters w ! i))\<rparr>))
       [0 ..< length (parameters w)] w"

definition on_parameter_change ::
  "env \<Rightarrow> (main_window \<Rightarrow> error + main_window) \<Rightarrow> bool \<Rightarrow> bool \<Rightarrow> main_window
     \<Rightarrow> error + main_window" where
  "on_parameter_change E cb from_fit report_success w =
     bindE
       (if \<not> from_fit then
          (if list_ex fit_checked (parameters w) then
             (let saved = m_fixed (mstate w)
              in bindE (do_fit_no_plot E cb (fix_all_but_fit w)) (\<lambda>rw.
                 Inr (True, fst rw,
                      upd_minuit (\<lambda>m. m\<lparr>m_fixed := saved\<rparr>)
                        ((snd rw)\<lparr>results_text := Some (mstate (snd rw))\<rparr>))))
           else Inr (from_fit, report_success, w))
        else Inr (from_fit, report_success, w\<lparr>results_text := Some (mstate w)\<rparr>))
       (\<lambda>(ff, rs, w3). plot_with_frame E ff rs (w3\<lparr>canvas := Blank\<rparr>))"

definition do_fit ::
  "env \<Rightarrow> (main_window \<Rightarrow> error + main_window) \<Rightarrow> bool \<Rightarrow> main_window
     \<Rightarrow> error + bool option \<times> main_window" where
  "do_fit E cb plot w =
     bindE (do_fit_no_plot E cb w) (\<lambda>rw.
       if \<not> plot then Inr (Some (fst rw), snd rw)
       else bindE (on_parameter_change E cb True (fst rw) (snd rw)) (\<lambda>w3. Inr (None, w3)))"

definition on_update_button_clicked :: "main_window \<Rightarrow> main_window" where
  "on_update_button_clicked w =
     w\<lparr>parameters := map (\<lambda>p. p\<lparr>slider := (slider p)\<lparr>tracking := update_button w\<rparr>\<rparr>) (parameters w)\<rparr>"


text \<open>
  Every panel holds \<^verbatim>\<open>self.on_parameter_change\<close> as its callback, and
  \<^verbatim>\<open>on_parameter_change\<close> calls methods of the panels: the callback is the unrolling of
  this recursion to a depth \<open>n\<close> of nested signal deliveries.
\<close>

fun callback :: "env \<Rightarrow> nat \<Rightarrow> main_window \<Rightarrow> error + main_window" where
  "callback E 0 w = Inl SignalDepth"
| "callback E (Suc n) w = on_parameter_change E (callback E n) False False w"

fun map_err :: "('a \<Rightarrow> error + 'b) \<Rightarrow> 'a list \<Rightarrow> error + 'b list" where
  "map_err f [] = Inr []"
| "map_err f (x # xs) = bindE (f x) (\<lambda>y. bindE (map_err f xs) (\<lambda>ys. Inr (y # ys)))"

definition MainWindow_init :: "env \<Rightarrow> minuit \<Rightarrow> error + main_window" where
  "MainWindow_init E m =
     bindE (map_err (Parameter_init m) [0 ..< npar m]) (\<lambda>ps.
       plot_with_frame E False True
         \<lparr>mstate = m, parameters = ps, algo_choice = Migrad, update_button = True,
          results_text = None, original_values = m_values m, original_limits = m_limits m,
          canvas = Blank\<rparr>)"

subsection \<open>The user's actions\<close>

text \<open>
  A click on a checkable button first flips its checked state, then calls the slot of
  \<^verbatim>\<open>clicked\<close>. An edit of a spin box stores the bounded value and, when the value
  changed, calls the slot of \<^verbatim>\<open>valueChanged\<close>. \<open>n\<close> is the depth of the callback.
\<close>

definition click_fix :: "nat \<Rightarrow> main_window \<Rightarrow> main_window" where
  "click_fix i w = on_fix_toggled i (upd_panel i (\<lambda>p. p\<lparr>fix_checked := \<not> fix_checked p\<rparr>) w)"

definition click_fit :: "env \<Rightarrow> nat \<Rightarrow> nat \<Rightarrow> main_window \<Rightarrow> error + main_window" where
  "click_fit E n i w =
     on_fit_toggled (callback E n) i (upd_panel i (\<lambda>p. p\<lparr>fit_checked := \<not> fit_checked p\<rparr>) w)"

definition edit_tmin :: "env \<Rightarrow> nat \<Rightarrow> nat \<Rightarrow> real \<Rightarrow> main_window \<Rightarrow> error + main_window" where
  "edit_tmin E n i x w =
     (let w1 = upd_panel i (\<lambda>p. p\<lparr>tmin := QDoubleSpinBox_setValue (Fin x) (tmin p)\<rparr>) w
      in if sb_value (tmin (parameters w1 ! i)) = sb_value (tmin (parameters w ! i)) then Inr w1
         else on_min_change (callback E n) i w1)"

definition edit_tmax :: "env \<Rightarrow> nat \<Rightarrow> nat \<Rightarrow> real \<Rightarrow> main_window \<Rightarrow> error + main_window" where
  "edit_tmax E n i x w =
     (let w1 = upd_panel i (\<lambda>p. p\<lparr>tmax := QDoubleSpinBox_setValue (Fin x) (tmax p)\<rparr>) w
      in if sb_value (tmax (parameters w1 ! i)) = sb_value (tmax (parameters w ! i)) then Inr w1
         else on_max_change (callback E n) i w1)"

definition click_fit_button :: "env \<Rightarrow> nat \<Rightarrow> main_window \<Rightarrow> error + main_window" where
  "click_fit_button E n w = bindE (do_fit E (callback E n) True w) (\<lambda>rw. Inr (snd rw))"


datatype toggle = Fix nat | Fit nat

fun toggles :: "env \<Rightarrow> nat \<Rightarrow> toggle list \<Rightarrow> main_window \<Rightarrow> error + main_window" where
  "toggles E n [] w = Inr w"
| "toggles E n (Fix i # ts) w = toggles E n ts (click_fix i w)"
| "toggles E n (Fit i # ts) w = bindE (click_fit E n i w) (toggles E n ts)"

section \<open>Predicates of the statements\<close>

text \<open>
  A window is well formed when panel \<open>i\<close> is the panel of parameter \<open>i\<close> and every slider
  has a window with \<open>min < max\<close>. The constructors build such windows and every
  method keeps them so.
\<close>

definition wfw :: "main_window \<Rightarrow> bool" where
  "wfw w = (\<forall>i < length (parameters w).
              par (parameters w ! i) = i \<and>
              s_min (slider (parameters w ! i)) < s_max (slider (parameters w ! i)))"

text \<open>
  The mutual exclusion of "fix" and "fit": no panel has both buttons checked, and no
  panel that is selected for the fit has its parameter fixed in the minimizer.
\<close>

definition exclusive :: "main_window \<Rightarrow> bool" where
  "exclusive w =
     (\<forall>i < length (parameters w).
        \<not> (fix_checked (parameters w ! i) \<and> fit_checked (parameters w ! i))
        \<and> \<not> (m_fixed (mstate w) (par (parameters w ! i)) \<and> fit_checked (parameters w ! i)))"

fun panel_of :: "toggle \<Rightarrow> nat" where
  "panel_of (Fix i) = i"
| "panel_of (Fit i) = i"

text \<open>
  The only exception that the modelled code lets escape is the one of the plot routine,
  and only when \<^verbatim>\<open>raise_on_exception\<close> is set. \<open>outcome E r Q\<close> says that the
  call \<open>r\<close> either returned a state that satisfies \<open>Q\<close>, or was aborted that way.
\<close>

definition plot_can_abort :: "env \<Rightarrow> bool" where
  "plot_can_abort E = (raise_on_exception E \<and> (\<exists>m. \<not> visualize_ok E m))"

definition outcome :: "env \<Rightarrow> error + 'a \<Rightarrow> ('a \<Rightarrow> bool) \<Rightarrow> bool" where
  "outcome E r Q = (case r of Inl e \<Rightarrow> e = PlotError \<and> plot_can_abort E | Inr a \<Rightarrow> Q a)"

section \<open>Closed forms of the operations\<close>

text \<open>
  The functions of this section are not in the source. They describe, as plain
  functions, what the methods above compute when no slot interferes; the lemmas of the
  next section prove that the methods compute them.
\<close>

definition lift :: "'w slider_ref \<Rightarrow> 'w \<Rightarrow> error + float_slider \<Rightarrow> error + 'w" where
  "lift r w x = bindE x (\<lambda>s. Inr (put_slider r s w))"

text \<open>The reference reads back what it wrote, at the state \<open>w\<close>.\<close>

definition lens_at :: "'w slider_ref \<Rightarrow> 'w \<Rightarrow> bool" where
  "lens_at r w = ((\<forall>s. get_slider r (put_slider r s w) = s) \<and>
                  (\<forall>s s'. put_slider r s (put_slider r s' w) = put_slider r s w))"

text \<open>
  The slider after \<^verbatim>\<open>setValue\<close> clamped to the bound \<open>b\<close>, at position \<open>q\<close>. When the
  position changes and the signals are not blocked, the slot of \<^verbatim>\<open>valueChanged\<close> replaces the
  value \<open>b\<close> by the value of the position \<open>q\<close>.
\<close>

definition clamped :: "float_slider \<Rightarrow> real \<Rightarrow> int \<Rightarrow> float_slider" where
  "clamped s b q =
     (let v = (if pos s \<noteq> q \<and> \<not> blocked s then int_to_float s q else b)
      in s\<lparr>pos := q, s_value := v, label := Some v,
           emitted := emitted s @ (if pos s \<noteq> q \<and> \<not> blocked s then [v, v] else [v])\<rparr>)"

text \<open>The slider after \<^verbatim>\<open>setValue(v)\<close> with \<open>v\<close> inside the window.\<close>

definition placed :: "float_slider \<Rightarrow> real \<Rightarrow> float_slider" where
  "placed s v =
     s\<lparr>pos := max 0 (min (10 ^ 8)
                (py_int (fmul (fdiv (fsub v (s_min s)) (fsub (s_max s) (s_min s))) (10 ^ 8)))),
       s_value := v, blocked := False\<rparr>"

definition moved :: "real \<Rightarrow> float_slider \<Rightarrow> float_slider" where
  "moved v s =
     (if v < s_min s then clamped s (s_min s) 0
      else if v > s_max s then clamped s (s_max s) (10 ^ 8)
      else placed s v)"

text \<open>The slider after \<^verbatim>\<open>Parameter.reset(val=v)\<close>.\<close>

definition refreshed :: "real \<Rightarrow> float_slider \<Rightarrow> float_slider" where
  "refreshed v s = (moved v (s\<lparr>blocked := True\<rparr>))\<lparr>label := Some v, blocked := False\<rparr>"

text \<open>The slider after \<^verbatim>\<open>setMinimum(m)\<close> and after \<^verbatim>\<open>setMaximum(m)\<close>.\<close>

definition narrowed_min :: "real \<Rightarrow> float_slider \<Rightarrow> float_slider" where
  "narrowed_min m s = (if s_max s \<le> m then s else moved (s_value s) (s\<lparr>s_min := m\<rparr>))"

definition narrowed_max :: "real \<Rightarrow> float_slider \<Rightarrow> float_slider" where
  "narrowed_max m s = (if s_min s \<ge> m then s else moved (s_value s) (s\<lparr>s_max := m\<rparr>))"

text \<open>The panel after \<^verbatim>\<open>Parameter.reset(val=v, limits=True)\<close>.\<close>

definition panel_reset :: "real \<Rightarrow> parameter \<Rightarrow> parameter" where
  "panel_reset v p =
     (let a = fst (p_original_limits p); b = snd (p_original_limits p);
          s1 = narrowed_min a ((slider p)\<lparr>blocked := True\<rparr>);
          s2 = narrowed_max b (s1\<lparr>blocked := True\<rparr>)
      in p\<lparr>slider := refreshed v s2,
           tmin := (tmin p)\<lparr>sb_value := bound (tmin p) (Fin (QDoubleSpinBox_round a)),
                            sb_blocked := False\<rparr>,
           tmax := (tmax p)\<lparr>sb_value := bound (tmax p) (Fin (QDoubleSpinBox_round b)),
                            sb_blocked := False\<rparr>\<rparr>)"

text \<open>A loop over the panels that changes panel \<open>i\<close> by \<open>g i\<close>.\<close>

definition map_panels :: "(nat \<Rightarrow> parameter \<Rightarrow> parameter) \<Rightarrow> main_window \<Rightarrow> main_window" where
  "map_panels g w = w\<lparr>parameters := map (\<lambda>i. g i (parameters w ! i)) [0 ..< length (parameters w)]\<rparr>"

definition refresh_all :: "(nat \<Rightarrow> real) \<Rightarrow> main_window \<Rightarrow> main_window" where
  "refresh_all vals = map_panels (\<lambda>i p. p\<lparr>slider := refreshed (vals i) (slider p)\<rparr>)"

text \<open>
  \<^verbatim>\<open>MainWindow.fit\<close>: the algorithm that runs, and the value it returns. \<open>temp_fixed\<close> are
  the fixed flags during the fit of the selected parameters, \<open>auto_fit\<close> is the window
  after that fit and before the redrawing, \<open>fitted\<close> the window after the Fit button
  before the redrawing, and \<open>settled\<close> the window after \<^verbatim>\<open>on_parameter_change()\<close> before
  the redrawing.
\<close>

definition run_algo :: "env \<Rightarrow> algo \<Rightarrow> minuit \<Rightarrow> minuit" where
  "run_algo E a = (case a of Migrad \<Rightarrow> migrad E | Scipy \<Rightarrow> scipy E | Simplex \<Rightarrow> simplex E)"

definition reports :: "algo \<Rightarrow> bool" where
  "reports a = (a \<noteq> Simplex)"

definition temp_fixed :: "main_window \<Rightarrow> nat \<Rightarrow> bool" where
  "temp_fixed w i =
     (if i < length (parameters w) then \<not> fit_checked (parameters w ! i) else m_fixed (mstate w) i)"

definition auto_fit :: "env \<Rightarrow> main_window \<Rightarrow> main_window" where
  "auto_fit E w =
     (let M = run_algo E (algo_choice w) ((mstate w)\<lparr>m_fixed := temp_fixed w\<rparr>)
      in (refresh_all (m_values M) w)
           \<lparr>results_text := Some M, mstate := M\<lparr>m_fixed := m_fixed (mstate w)\<rparr>\<rparr>)"

definition fitted :: "env \<Rightarrow> main_window \<Rightarrow> main_window" where
  "fitted E w =
     (let M = run_algo E (algo_choice w) (mstate w)
      in (refresh_all (m_values M) (upd_minuit (run_algo E (algo_choice w)) w))
           \<lparr>results_text := Some M\<rparr>)"

definition settled :: "env \<Rightarrow> main_window \<Rightarrow> main_window" where
  "settled E w = (if list_ex fit_checked (parameters w) then auto_fit E w else w)"

text \<open>What \<^verbatim>\<open>plot_with_frame\<close> leaves on the canvas when it returns.\<close>

definition drawn :: "env \<Rightarrow> bool \<Rightarrow> bool \<Rightarrow> minuit \<Rightarrow> frame" where
  "drawn E from_fit report_success m =
     (if visualize_ok E m then
        Plot from_fit (if from_fit \<and> report_success then
                         Some (if m_valid m \<and> m_accurate m then ''success'' else ''FAILURE'')
                       else None)
      else Traceback)"

text \<open>The window after the pure part of a click on the "fit" button of panel \<open>i\<close>.\<close>

definition fit_toggled :: "nat \<Rightarrow> main_window \<Rightarrow> main_window" where
  "fit_toggled i w =
     (let c = \<not> fit_checked (parameters w ! i);
          w1 = upd_panel i (\<lambda>p. p\<lparr>fit_checked := c,
                                    slider := (slider p)\<lparr>enabled := \<not> c\<rparr>,
                                    fix_checked := (if c then False else fix_checked p)\<rparr>) w
      in if c then upd_minuit (\<lambda>m. m\<lparr>m_fixed := (m_fixed m)(par (parameters w ! i) := False)\<rparr>) w1
         else w1)"

text \<open>
  The window \<^verbatim>\<open>(vmin2, vmax2)\<close> of \<^verbatim>\<open>Parameter.__init__\<close>, and the window after the Reset
  button before \<^verbatim>\<open>on_parameter_change()\<close>.
\<close>

definition finite_window :: "minuit \<Rightarrow> nat \<Rightarrow> real \<times> real" where
  "finite_window m p =
     (let val = m_values m p;
          stp = guess_initial_step val (fst (m_limits m p)) (snd (m_limits m p))
      in ((case fst (m_limits m p) of Fin a \<Rightarrow> a | _ \<Rightarrow> fsub val (fmul 100 stp)),
          (case snd (m_limits m p) of Fin b \<Rightarrow> b | _ \<Rightarrow> fadd val (fmul 100 stp))))"


text \<open>
  What a call keeps: \<open>core\<close> forgets the parts of a panel that every \<^verbatim>\<open>setValue\<close>
  may change (position, value, label, blocking, log); \<open>kept w w'\<close> says that \<open>w'\<close> has the
  panels of \<open>w\<close> up to these parts, and its fixed flags, selections and captured
  originals.
\<close>

definition core :: "parameter \<Rightarrow> parameter" where
  "core p = p\<lparr>slider := (slider p)\<lparr>pos := 0, s_value := 0, label := None, blocked := False,
                                     emitted := []\<rparr>\<rparr>"

definition kept :: "main_window \<Rightarrow> main_window \<Rightarrow> bool" where
  "kept w w' =
     (map core (parameters w') = map core (parameters w)
      \<and> m_fixed (mstate w') = m_fixed (mstate w)
      \<and> algo_choice w' = algo_choice w \<and> update_button w' = update_button w
      \<and> original_values w' = original_values w \<and> original_limits w' = original_limits w)"

section \<open>A concrete window\<close>

text \<open>
  A minimizer with one parameter of value 5 and no limits, collaborators that never fail
  (Migrad moves every value to 10), and the panel and window that the constructors build
  from them.
\<close>

definition m0 :: minuit where
  "m0 = \<lparr>m_values = (\<lambda>_. 5), m_limits = (\<lambda>_. (MInf, PInf)), m_fixed = (\<lambda>_. False),
         npar = 1, m_valid = True, m_accurate = True\<rparr>"

definition E0 :: env where
  "E0 = \<lparr>migrad = (\<lambda>m. m\<lparr>m_values := (\<lambda>_. 10)\<rparr>), scipy = (\<lambda>m. m), simplex = (\<lambda>m. m),
         minuit_reset = (\<lambda>m. m), visualize_ok = (\<lambda>_. True), raise_on_exception = False\<rparr>"

definition P0 :: parameter where
  "P0 = \<lparr>par = 0,
         slider = \<lparr>pos = 83333333, s_min = 0, s_max = 6, s_value = 5, label = Some 5,
                   blocked = False, enabled = True, tracking = True, emitted = []\<rparr>,
         tmin = \<lparr>sb_value = 4, sb_minimum = - float_max, sb_maximum = float_max,
                 sb_step = fl (1 / 5), sb_blocked = False\<rparr>,
         tmax = \<lparr>sb_value = 6, sb_minimum = - float_max, sb_maximum = float_max,
                 sb_step = fl (1 / 5), sb_blocked = False\<rparr>,
         fix_checked = False, fit_checked = False, step = fl (1 / 100),
         original_value = 5, p_original_limits = (4, 6)\<rparr>"

definition W0 :: main_window where
  "W0 = \<lparr>mstate = m0, parameters = [P0], algo_choice = Migrad, update_button = True,
         results_text = None, original_values = (\<lambda>_. 5), original_limits = (\<lambda>_. (MInf, PInf)),
         canvas = Plot False None\<rparr>"


section \<open>A window with two parameters\<close>

text \<open>
  A second parameter of value \<open>0.5\<close> with the limits \<open>(0, 1)\<close>, a Migrad that moves every
  parameter that is not fixed to 10 and reports a valid and accurate result, and a
  \<^verbatim>\<open>reset\<close> that clears this report.
\<close>

definition m2 :: minuit where
  "m2 = \<lparr>m_values = (\<lambda>i. if i = 0 then 5 else 1 / 2),
         m_limits = (\<lambda>i. if i = 0 then (MInf, PInf) else (Fin 0, Fin 1)),
         m_fixed = (\<lambda>_. False), npar = 2, m_valid = False, m_accurate = False\<rparr>"

definition E2 :: env where
  "E2 = \<lparr>migrad = (\<lambda>m. m\<lparr>m_values := (\<lambda>i. if m_fixed m i then m_values m i else 10),
                             m_valid := True, m_accurate := True\<rparr>),
         scipy = (\<lambda>m. m), simplex = (\<lambda>m. m),
         minuit_reset = (\<lambda>m. m\<lparr>m_valid := False, m_accurate := False\<rparr>),
         visualize_ok = (\<lambda>_. True), raise_on_exception = False\<rparr>"

definition P1 :: parameter where
  "P1 = \<lparr>par = 1,
         slider = \<lparr>pos = 5 * 10 ^ 7, s_min = 0, s_max = 1, s_value = 1 / 2, label = Some (1 / 2),
                   blocked = False, enabled = True, tracking = True, emitted = []\<rparr>,
         tmin = \<lparr>sb_value = 0, sb_minimum = 0, sb_maximum = float_max,
                 sb_step = fl (1 / 10), sb_blocked = False\<rparr>,
         tmax = \<lparr>sb_value = 1, sb_minimum = - float_max, sb_maximum = 1,
                 sb_step = fl (1 / 10), sb_blocked = False\<rparr>,
         fix_checked = False, fit_checked = False, step = fl (1 / 100),
         original_value = 1 / 2, p_original_limits = (0, 1)\<rparr>"

definition W2 :: main_window where
  "W2 = \<lparr>mstate = m2, parameters = [P0, P1], algo_choice = Migrad, update_button = True,
         results_text = None, original_values = m_values m2, original_limits = m_limits m2,
         canvas = Plot False None\<rparr>"

section \<open>Lemmas\<close>

subsection \<open>Floating-point numbers\<close>

text \<open>
  The exponent is the one that brackets the number; rounding is monotone, odd, exact on
  the numbers with a 53-bit significand, and zero only at zero.
\<close>

lemma expo_unique:
  assumes "2 powi e \<le> \<bar>x\<bar>" and "\<bar>x\<bar> < 2 powi (e + 1)"
  shows "expo x = e"
proof (cases "0 \<le> e")
  case True
  then obtain k where k: "e = int k" by (metis nonneg_int_cases)
  have lo: "(2 :: real) ^ k \<le> \<bar>x\<bar>" and hi: "\<bar>x\<bar> < 2 ^ Suc k"
    using assms by (simp_all add: k power_int_def nat_add_distrib)
  have "(1 :: real) \<le> 2 ^ k" by simp
  then have x1: "1 \<le> \<bar>x\<bar>" using lo by linarith
  have a: "(2 :: int) ^ k \<le> \<lfloor>\<bar>x\<bar>\<rfloor>"
    using lo by (simp add: le_floor_iff)
  have b: "\<lfloor>\<bar>x\<bar>\<rfloor> < (2 :: int) ^ Suc k"
    using hi by (simp add: floor_less_iff)
  have "bitlen \<lfloor>\<bar>x\<bar>\<rfloor> \<le> int (Suc k)"
    using b by (simp add: bitlen_le_iff_power nat_add_distrib)
  moreover have "int (Suc k) \<le> bitlen \<lfloor>\<bar>x\<bar>\<rfloor>"
    using a by (simp add: bitlen_ge_iff_power nat_add_distrib)
  ultimately show ?thesis using x1 by (simp add: expo_def k)
next
  case False
  then obtain k where k: "e = - int (Suc k)"
    by (metis int_cases neg_0_le_iff_le of_nat_0_le_iff not_less_eq_eq nat.exhaust of_nat_0 minus_zero linorder_le_cases)
  have e1: "e + 1 = - int k" using k by simp
  have lo: "1 / (2 :: real) ^ Suc k \<le> \<bar>x\<bar>"
    using assms(1) unfolding k power_int_minus power_int_of_nat by (simp add: field_simps)
  have hi: "\<bar>x\<bar> < 1 / 2 ^ k"
    using assms(2) unfolding e1 power_int_minus power_int_of_nat by (simp add: field_simps)
  have xp: "0 < \<bar>x\<bar>" using lo by (smt (verit) divide_pos_pos zero_less_power)
  have "1 / (2 :: real) ^ k \<le> 1" by (simp add: field_simps)
  then have x1: "\<not> 1 \<le> \<bar>x\<bar>" using hi by linarith
  have y1: "1 / \<bar>x\<bar> \<le> 2 ^ Suc k" using lo xp by (simp add: field_simps)
  have y2: "2 ^ k < 1 / \<bar>x\<bar>" using hi xp by (simp add: field_simps)
  have a: "\<lceil>1 / \<bar>x\<bar>\<rceil> - 1 < (2 :: int) ^ Suc k"
  proof -
    have "\<lceil>1 / \<bar>x\<bar>\<rceil> \<le> (2 :: int) ^ Suc k" using y1 by (simp add: ceiling_le_iff)
    then show ?thesis by linarith
  qed
  have b: "(2 :: int) ^ k \<le> \<lceil>1 / \<bar>x\<bar>\<rceil> - 1"
  proof -
    have "(2 :: int) ^ k < \<lceil>1 / \<bar>x\<bar>\<rceil>" using y2 by (simp add: less_ceiling_iff)
    then show ?thesis by linarith
  qed
  have "bitlen (\<lceil>1 / \<bar>x\<bar>\<rceil> - 1) \<le> int (Suc k)"
    using a by (simp add: bitlen_le_iff_power nat_add_distrib)
  moreover have "int (Suc k) \<le> bitlen (\<lceil>1 / \<bar>x\<bar>\<rceil> - 1)"
    using b by (simp add: bitlen_ge_iff_power nat_add_distrib)
  ultimately show ?thesis using x1 by (simp add: expo_def k)
qed

lemma two_powi_pos [simp]: "0 < (2 :: real) powi e"
  by (simp add: power_int_def)

lemma two_powi_add: "(2 :: real) powi (a + b) = 2 powi a * 2 powi b"
  by (simp add: power_int_add)

lemma two_powi_lessD: "(2 :: real) powi a < 2 powi b \<Longrightarrow> a < b"
  using power_int_increasing [of b a "2 :: real"] by (cases "a < b") simp_all

lemma expo_bounds:
  assumes "x \<noteq> 0"
  shows "2 powi expo x \<le> \<bar>x\<bar>" and "\<bar>x\<bar> < 2 powi (expo x + 1)"
proof -
  define k where "k = \<lfloor>log 2 \<bar>x\<bar>\<rfloor>"
  have "2 powr real_of_int k \<le> \<bar>x\<bar> \<and> \<bar>x\<bar> < 2 powr real_of_int (k + 1)"
    using floor_log_eq_powr_iff [of "\<bar>x\<bar>" 2 k] assms by (simp add: k_def)
  moreover have "2 powr real_of_int k = 2 powi k" "2 powr real_of_int (k + 1) = 2 powi (k + 1)"
    by (rule powr_real_of_int'; simp)+
  ultimately have b: "2 powi k \<le> \<bar>x\<bar> \<and> \<bar>x\<bar> < 2 powi (k + 1)"
    by simp
  then have "expo x = k" using expo_unique by blast
  with b show "2 powi expo x \<le> \<bar>x\<bar>" and "\<bar>x\<bar> < 2 powi (expo x + 1)" by simp_all
qed

lemma expo_minus [simp]: "expo (- x) = expo x"
  by (simp add: expo_def)

lemma rne_of_int [simp]: "rne (of_int n) = n"
  by (simp add: rne_def)

lemma rne_0 [simp]: "rne 0 = 0"
  using rne_of_int [of 0] by simp

lemma rne_eqI:
  assumes "\<bar>x - of_int n\<bar> < 1 / 2"
  shows "rne x = n"
proof (cases "of_int n \<le> x")
  case True
  then have "\<lfloor>x\<rfloor> = n" using assms by (intro floor_unique) linarith+
  then show ?thesis using assms True by (simp add: rne_def Let_def)
next
  case False
  then have "\<lfloor>x\<rfloor> = n - 1" using assms by (intro floor_unique) (simp, linarith)+
  then show ?thesis using assms False by (simp add: rne_def Let_def)
qed

lemma rne_mono:
  assumes "x \<le> y"
  shows "rne x \<le> rne y"
proof (cases "\<lfloor>x\<rfloor> = \<lfloor>y\<rfloor>")
  case True
  then show ?thesis using assms by (simp add: rne_def Let_def)
next
  case False
  then have "\<lfloor>x\<rfloor> + 1 \<le> \<lfloor>y\<rfloor>" using floor_mono [OF assms] by linarith
  moreover have "rne x \<le> \<lfloor>x\<rfloor> + 1" by (simp add: rne_def Let_def)
  moreover have "\<lfloor>y\<rfloor> \<le> rne y" by (simp add: rne_def Let_def)
  ultimately show ?thesis by linarith
qed

lemma rne_minus: "rne (- x) = - rne x"
proof (cases "x = of_int \<lfloor>x\<rfloor>")
  case True
  then obtain n where "x = of_int n" ..
  then have "- x = of_int (- n)" by simp
  then show ?thesis using \<open>x = of_int n\<close> by (metis rne_of_int)
next
  case False
  then have c: "\<lceil>x\<rceil> = \<lfloor>x\<rfloor> + 1" by (simp add: ceiling_altdef)
  have f: "\<lfloor>- x\<rfloor> = - \<lfloor>x\<rfloor> - 1" using c by (simp add: floor_minus)
  show ?thesis
    unfolding rne_def Let_def f by (auto simp: field_simps)
qed

lemma fl_0 [simp]: "fl 0 = 0"
  by (simp add: fl_def)

lemma fl_minus: "fl (- x) = - fl x"
  by (simp add: fl_def rne_minus)

lemma fl_eqI:
  assumes "2 powi e \<le> \<bar>x\<bar>" and "\<bar>x\<bar> < 2 powi (e + 1)"
  shows "fl x = of_int (rne (x * 2 powi (52 - e))) * 2 powi (e - 52)"
  using expo_unique [OF assms] by (simp add: fl_def)

lemma fl_val:
  assumes "2 powi e \<le> \<bar>x\<bar>" and "\<bar>x\<bar> < 2 powi (e + 1)"
    and "\<bar>x * 2 powi (52 - e) - of_int n\<bar> < 1 / 2"
  shows "fl x = of_int n * 2 powi (e - 52)"
  using fl_eqI [OF assms(1,2)] rne_eqI [OF assms(3)] by simp

lemma fl_nonneg: "0 \<le> x \<Longrightarrow> 0 \<le> fl x"
proof -
  assume x: "0 \<le> x"
  have "0 \<le> x * 2 powi (52 - expo x)" using x by simp
  then have "rne 0 \<le> rne (x * 2 powi (52 - expo x))" by (rule rne_mono)
  then show ?thesis by (simp add: fl_def)
qed

lemma fl_pos_bounds:
  assumes "0 < x"
  shows "2 powi expo x \<le> fl x" and "fl x \<le> 2 powi (expo x + 1)"
proof -
  let ?e = "expo x"
  let ?s = "x * 2 powi (52 - ?e)"
  have b: "2 powi ?e \<le> x" "x < 2 powi (?e + 1)"
    using expo_bounds [of x] assms by simp_all
  have p: "(2 :: real) powi ?e * 2 powi (52 - ?e) = 2 ^ 52"
    by (simp flip: two_powi_add)
  have q: "(2 :: real) powi (?e + 1) * 2 powi (52 - ?e) = 2 ^ 53"
    by (simp flip: two_powi_add)
  have "2 powi ?e * 2 powi (52 - ?e) \<le> ?s"
    using b(1) by (intro mult_right_mono) simp_all
  then have "real_of_int (2 ^ 52) \<le> ?s" using p by simp
  then have "rne (real_of_int (2 ^ 52)) \<le> rne ?s" by (rule rne_mono)
  then have lo: "2 ^ 52 \<le> rne ?s" by (simp only: rne_of_int)
  have lo': "(2 :: real) ^ 52 \<le> real_of_int (rne ?s)"
    using of_int_le_iff [of "2 ^ 52" "rne ?s", where 'a = real] lo by simp
  have "?s \<le> 2 powi (?e + 1) * 2 powi (52 - ?e)"
    using b(2) by (intro mult_right_mono) simp_all
  then have "?s \<le> real_of_int (2 ^ 53)" using q by simp
  then have "rne ?s \<le> rne (real_of_int (2 ^ 53))" by (rule rne_mono)
  then have hi: "rne ?s \<le> 2 ^ 53" by (simp only: rne_of_int)
  have hi': "real_of_int (rne ?s) \<le> (2 :: real) ^ 53"
    using of_int_le_iff [of "rne ?s" "2 ^ 53", where 'a = real] hi by simp
  have r: "(2 :: real) ^ 52 * 2 powi (?e - 52) = 2 powi ?e"
    using two_powi_add [of 52 "?e - 52"] by simp
  have r2: "(2 :: real) ^ 53 * 2 powi (?e - 52) = 2 powi (?e + 1)"
    using two_powi_add [of 53 "?e - 52"] by (simp add: add.commute)
  have "2 ^ 52 * 2 powi (?e - 52) \<le> real_of_int (rne ?s) * 2 powi (?e - 52)"
    using lo' by (intro mult_right_mono) simp_all
  then have "2 powi ?e \<le> real_of_int (rne ?s) * 2 powi (?e - 52)" unfolding r .
  then show "2 powi expo x \<le> fl x" unfolding fl_def .
  have "real_of_int (rne ?s) * 2 powi (?e - 52) \<le> 2 ^ 53 * 2 powi (?e - 52)"
    using hi' by (intro mult_right_mono) simp_all
  then have "real_of_int (rne ?s) * 2 powi (?e - 52) \<le> 2 powi (?e + 1)" unfolding r2 .
  then show "fl x \<le> 2 powi (expo x + 1)" unfolding fl_def .
qed

lemma fl_pos: "0 < x \<Longrightarrow> 0 < fl x"
  using fl_pos_bounds(1) [of x] two_powi_pos [of "expo x"] by linarith

lemma fl_eq_0_iff [simp]: "fl x = 0 \<longleftrightarrow> x = 0"
proof
  assume z: "fl x = 0"
  show "x = 0"
  proof (rule ccontr)
    assume "x \<noteq> 0"
    then consider "0 < x" | "0 < - x" by linarith
    then show False
    proof cases
      case 1 then show False using fl_pos [of x] z by simp
    next
      case 2 then show False using fl_pos [of "- x"] z by (simp add: fl_minus)
    qed
  qed
qed simp

lemma fl_mono_pos:
  assumes "0 < x" and "x \<le> y"
  shows "fl x \<le> fl y"
proof -
  have y: "0 < y" using assms by linarith
  have bx: "2 powi expo x \<le> x" "x < 2 powi (expo x + 1)"
    using expo_bounds [of x] assms by simp_all
  have by': "2 powi expo y \<le> y" "y < 2 powi (expo y + 1)"
    using expo_bounds [of y] y by simp_all
  have "(2 :: real) powi expo x < 2 powi (expo y + 1)" using bx by' assms by linarith
  then have "expo x < expo y + 1" by (rule two_powi_lessD)
  then consider "expo x = expo y" | "expo x + 1 \<le> expo y" by linarith
  then show ?thesis
  proof cases
    case 1
    have "x * 2 powi (52 - expo y) \<le> y * 2 powi (52 - expo y)"
      using assms(2) by (intro mult_right_mono) simp_all
    then have "rne (x * 2 powi (52 - expo y)) \<le> rne (y * 2 powi (52 - expo y))"
      by (rule rne_mono)
    then have "real_of_int (rne (x * 2 powi (52 - expo y))) * 2 powi (expo y - 52)
        \<le> real_of_int (rne (y * 2 powi (52 - expo y))) * 2 powi (expo y - 52)"
      by (intro mult_right_mono) simp_all
    then show ?thesis by (simp add: fl_def 1)
  next
    case 2
    have "fl x \<le> 2 powi (expo x + 1)" by (rule fl_pos_bounds(2) [OF assms(1)])
    also have "\<dots> \<le> 2 powi expo y" using 2 by (simp add: power_int_increasing)
    also have "\<dots> \<le> fl y" by (rule fl_pos_bounds(1) [OF y])
    finally show ?thesis .
  qed
qed

lemma fl_mono:
  assumes "x \<le> y"
  shows "fl x \<le> fl y"
proof -
  consider "0 < x" | "x \<le> 0" "0 \<le> y" | "y < 0" using assms by linarith
  then show ?thesis
  proof cases
    case 1 then show ?thesis using assms by (rule fl_mono_pos)
  next
    case 2
    have "fl x \<le> 0" using fl_nonneg [of "- x"] 2(1) by (simp add: fl_minus)
    moreover have "0 \<le> fl y" using 2(2) by (rule fl_nonneg)
    ultimately show ?thesis by linarith
  next
    case 3
    have "fl (- y) \<le> fl (- x)" using 3 assms by (intro fl_mono_pos) simp_all
    then show ?thesis by (simp add: fl_minus)
  qed
qed

lemma fl_exact:
  assumes "\<bar>m\<bar> < 2 ^ 53"
  shows "fl (of_int m * 2 powi k) = of_int m * 2 powi k"
proof (cases "m = 0")
  case True
  then show ?thesis by simp
next
  case False
  let ?x = "real_of_int m * 2 powi k"
  let ?e = "expo ?x"
  have nz: "?x \<noteq> 0" using False by simp
  have "2 powi ?e \<le> \<bar>?x\<bar>" by (rule expo_bounds(1) [OF nz])
  also have "\<bar>?x\<bar> = real_of_int \<bar>m\<bar> * 2 powi k" by (simp add: abs_mult)
  also have "\<dots> < real_of_int (2 ^ 53) * 2 powi k"
    using assms by (intro mult_strict_right_mono) (simp_all only: of_int_less_iff two_powi_pos)
  also have "\<dots> = 2 powi (53 + k)" using two_powi_add [of 53 k] by simp
  finally have "?e < 53 + k" by (rule two_powi_lessD)
  then have "0 \<le> k + 52 - ?e" by linarith
  then obtain j where j: "k + 52 - ?e = int j" by (rule nonneg_int_cases)
  have "?x * 2 powi (52 - ?e) = real_of_int m * 2 powi (k + (52 - ?e))"
    by (simp add: two_powi_add)
  also have "k + (52 - ?e) = int j" using j by simp
  finally have s: "?x * 2 powi (52 - ?e) = real_of_int (m * 2 ^ j)" by simp
  have "fl ?x = real_of_int (m * 2 ^ j) * 2 powi (?e - 52)"
    unfolding fl_def s by (simp only: rne_of_int)
  also have "\<dots> = real_of_int m * (2 powi (int j) * 2 powi (?e - 52))" by simp
  also have "2 powi (int j) * 2 powi (?e - 52) = (2 :: real) powi k"
  proof -
    have "int j + (?e - 52) = k" using j by linarith
    then show ?thesis unfolding two_powi_add [symmetric] by simp
  qed
  finally show ?thesis .
qed

lemma fl_of_int: "\<bar>m\<bar> < 2 ^ 53 \<Longrightarrow> fl (of_int m) = of_int m"
  using fl_exact [of m 0] by simp

lemma fl_numeral [simp]: "(numeral k :: int) < 2 ^ 53 \<Longrightarrow> fl (numeral k) = numeral k"
  using fl_of_int [of "numeral k"] by simp

lemma fl_1 [simp]: "fl 1 = 1"
  using fl_of_int [of 1] by simp

lemma fl_neg_numeral [simp]:
  "(numeral k :: int) < 2 ^ 53 \<Longrightarrow> fl (- numeral k) = - numeral k"
  by (simp add: fl_minus)

lemma fsub_eq_0_iff [simp]: "fsub a b = 0 \<longleftrightarrow> a = b"
  by (simp add: fsub_def)

lemma fsub_mono: "a \<le> b \<Longrightarrow> fsub a c \<le> fsub b c"
  by (simp add: fsub_def fl_mono)

lemma fsub_nonneg: "b \<le> a \<Longrightarrow> 0 \<le> fsub a b"
  by (simp add: fsub_def fl_nonneg)

lemma fsub_pos: "b < a \<Longrightarrow> 0 < fsub a b"
  by (simp add: fsub_def fl_pos)

subsection \<open>The slider\<close>

lemma bindE_simps [simp]: "bindE (Inl e) f = Inl e" "bindE (Inr x) f = f x"
  by (simp_all add: bindE_def)

lemma bare_simps [simp]:
  "get_slider bare s = s" "put_slider bare s w = s" "connected bare v w = Inr w"
  by (simp_all add: bare_def)

lemma lone_simps [simp]:
  "get_slider lone w = fst w" "put_slider lone s w = (s, snd w)"
  "connected lone v w = Inr (fst w, snd w @ [v])"
  by (simp_all add: lone_def)

lemma lift_simps [simp]: "lift r w (Inl e) = Inl e" "lift r w (Inr s) = Inr (put_slider r s w)"
  by (simp_all add: lift_def)

lemma lens_atD:
  "lens_at r w \<Longrightarrow> get_slider r (put_slider r s w) = s"
  "lens_at r w \<Longrightarrow> put_slider r s (put_slider r s' w) = put_slider r s w"
  by (simp_all add: lens_at_def)


lemma setValue_bare_below:
  "v < s_min s \<Longrightarrow> setValue bare v s = Inr (clamped s (s_min s) 0)"
  by (simp add: setValue_def QSlider_setValue_def emit_float_value_changed_def
      clamped_def int_to_float_def Let_def)

lemma setValue_bare_above:
  "\<not> v < s_min s \<Longrightarrow> s_max s < v \<Longrightarrow> setValue bare v s = Inr (clamped s (s_max s) (10 ^ 8))"
  by (simp add: setValue_def QSlider_setValue_def emit_float_value_changed_def
      clamped_def int_to_float_def Let_def)

lemma setValue_bare_within:
  "s_min s \<le> v \<Longrightarrow> v \<le> s_max s \<Longrightarrow> s_min s < s_max s \<Longrightarrow> setValue bare v s = Inr (placed s v)"
  by (simp add: setValue_def QSlider_setValue_def blockSignals_def float_to_int_def
      placed_def Let_def)

lemma int_to_float_cong [simp]:
  "int_to_float (s\<lparr>pos := q\<rparr>) = int_to_float s"
  "int_to_float (s\<lparr>s_value := x\<rparr>) = int_to_float s"
  "int_to_float (s\<lparr>label := l\<rparr>) = int_to_float s"
  "int_to_float (s\<lparr>blocked := b\<rparr>) = int_to_float s"
  "int_to_float (s\<lparr>emitted := e\<rparr>) = int_to_float s"
  by (simp_all add: int_to_float_def fun_eq_iff)

lemma setValue_bare: "s_min s < s_max s \<Longrightarrow> setValue bare v s = Inr (moved v s)"
  using setValue_bare_below [of v s] setValue_bare_above [of v s] setValue_bare_within [of s v]
  by (simp add: moved_def)

text \<open>
  A slider whose signals are blocked, or whose new value lies inside the window, is
  changed by \<^verbatim>\<open>setValue\<close> as a slider without listeners is: no slot runs.
\<close>

lemma setValue_local_below:
  assumes "lens_at r w" "blocked (get_slider r w)" "v < s_min (get_slider r w)"
  shows "setValue r v w = lift r w (setValue bare v (get_slider r w))"
  using assms
  by (simp add: setValue_def QSlider_setValue_def emit_float_value_changed_def Let_def lens_atD)

lemma setValue_local_above:
  assumes "lens_at r w" "blocked (get_slider r w)" "\<not> v < s_min (get_slider r w)"
    "s_max (get_slider r w) < v"
  shows "setValue r v w = lift r w (setValue bare v (get_slider r w))"
  using assms
  by (simp add: setValue_def QSlider_setValue_def emit_float_value_changed_def Let_def lens_atD)

lemma setValue_local_within:
  assumes "lens_at r w" "s_min (get_slider r w) \<le> v" "v \<le> s_max (get_slider r w)"
  shows "setValue r v w = lift r w (setValue bare v (get_slider r w))"
  using assms
  by (simp add: setValue_def QSlider_setValue_def blockSignals_def float_to_int_def Let_def lens_atD)

lemma setValue_local:
  assumes "lens_at r w"
    and "blocked (get_slider r w) \<or> (s_min (get_slider r w) \<le> v \<and> v \<le> s_max (get_slider r w))"
  shows "setValue r v w = lift r w (setValue bare v (get_slider r w))"
  using assms setValue_local_below [of r w v] setValue_local_above [of r w v]
    setValue_local_within [of r w v]
  by (cases "v < s_min (get_slider r w)"; cases "s_max (get_slider r w) < v") auto

text \<open>The slider on its own, with the recording listener.\<close>

lemma setValue_lone:
  assumes "s_min s < s_max s"
  shows "setValue lone v (s, d) =
           Inr (moved v s,
                d @ (if blocked s then [] else drop (length (emitted s)) (emitted (moved v s))))"
proof -
  consider "v < s_min s" | "\<not> v < s_min s" "s_max s < v" | "s_min s \<le> v" "v \<le> s_max s"
    by linarith
  then show ?thesis
  proof cases
    case 1
    then show ?thesis
      by (simp add: setValue_def QSlider_setValue_def emit_float_value_changed_def
          moved_def clamped_def int_to_float_def Let_def)
  next
    case 2
    then show ?thesis
      by (simp add: setValue_def QSlider_setValue_def emit_float_value_changed_def
          moved_def clamped_def int_to_float_def Let_def)
  next
    case 3
    then show ?thesis using assms
      by (simp add: setValue_def QSlider_setValue_def blockSignals_def float_to_int_def
          moved_def placed_def Let_def)
  qed
qed

lemma setMinimum_lone:
  "setMinimum lone m (s, d) =
     (if s_max s \<le> m then Inr (s, d) else setValue lone (s_value s) (s\<lparr>s_min := m\<rparr>, d))"
  by (simp add: setMinimum_def)

lemma setMaximum_lone:
  "setMaximum lone m (s, d) =
     (if m \<le> s_min s then Inr (s, d) else setValue lone (s_value s) (s\<lparr>s_max := m\<rparr>, d))"
  by (simp add: setMaximum_def)

text \<open>On a number that is not negative, \<^verbatim>\<open>int\<close> is the floor.\<close>

lemma py_int_nonneg: "0 \<le> x \<Longrightarrow> py_int x = \<lfloor>x\<rfloor>"
  by (simp add: py_int_def)

subsection \<open>Panels in a window\<close>

lemma slider_at_simps [simp]:
  "get_slider (slider_at cb i) w = slider (parameters w ! i)"
  "put_slider (slider_at cb i) s w = upd_panel i (\<lambda>p. p\<lparr>slider := s\<rparr>) w"
  "connected (slider_at cb i) = on_val_change cb i"
  by (simp_all add: slider_at_def)

lemma upd_panel_simps [simp]:
  "length (parameters (upd_panel i f w)) = length (parameters w)"
  "mstate (upd_panel i f w) = mstate w"
  "algo_choice (upd_panel i f w) = algo_choice w"
  "update_button (upd_panel i f w) = update_button w"
  "results_text (upd_panel i f w) = results_text w"
  "original_values (upd_panel i f w) = original_values w"
  "original_limits (upd_panel i f w) = original_limits w"
  "canvas (upd_panel i f w) = canvas w"
  by (simp_all add: upd_panel_def)

lemma upd_panel_nth:
  "i < length (parameters w) \<Longrightarrow>
   parameters (upd_panel i f w) ! j = (if j = i then f (parameters w ! i) else parameters w ! j)"
  by (simp add: upd_panel_def nth_list_update)

lemma upd_panel_nth_same [simp]:
  "i < length (parameters w) \<Longrightarrow> parameters (upd_panel i f w) ! i = f (parameters w ! i)"
  by (simp add: upd_panel_nth)

lemma upd_panel_nth_other [simp]:
  "j \<noteq> i \<Longrightarrow> parameters (upd_panel i f w) ! j = parameters w ! j"
  by (simp add: upd_panel_def)

lemma upd_panel_twice [simp]:
  "i < length (parameters w) \<Longrightarrow> upd_panel i f (upd_panel i g w) = upd_panel i (\<lambda>p. f (g p)) w"
  by (simp add: upd_panel_def)

lemma upd_panel_cong:
  "f (parameters w ! i) = g (parameters w ! i) \<Longrightarrow> upd_panel i f w = upd_panel i g w"
  by (simp add: upd_panel_def)

lemma lens_slider_at: "i < length (parameters w) \<Longrightarrow> lens_at (slider_at cb i) w"
  by (simp add: lens_at_def)

lemma reset_value:
  assumes i: "i < length (parameters w)"
    and ok: "s_min (slider (parameters w ! i)) < s_max (slider (parameters w ! i))"
  shows "reset cb i (Some v) False w =
           Inr (upd_panel i (\<lambda>p. p\<lparr>slider := refreshed v (slider p)\<rparr>) w)"
proof -
  let ?r = "slider_at cb i"
  let ?s = "slider (parameters w ! i)"
  let ?w1 = "blockSignals ?r True w"
  have l1: "lens_at ?r ?w1"
    using i by (simp add: blockSignals_def lens_slider_at)
  have g1: "get_slider ?r ?w1 = ?s\<lparr>blocked := True\<rparr>"
    using i by (simp add: blockSignals_def)
  have "setValue ?r v ?w1 = lift ?r ?w1 (setValue bare v (?s\<lparr>blocked := True\<rparr>))"
    using setValue_local [OF l1, of v] g1 by simp
  also have "\<dots> = Inr (put_slider ?r (moved v (?s\<lparr>blocked := True\<rparr>)) ?w1)"
    using ok by (simp add: setValue_bare)
  finally have sv: "setValue ?r v ?w1 = Inr (put_slider ?r (moved v (?s\<lparr>blocked := True\<rparr>)) ?w1)" .
  show ?thesis
    using i
    apply (simp add: reset_def sv Let_def)
    apply (simp add: blockSignals_def)
    apply (rule upd_panel_cong)
    apply (simp add: refreshed_def)
    done
qed

lemma moved_simps [simp]:
  "s_min (moved v s) = s_min s" "s_max (moved v s) = s_max s"
  "enabled (moved v s) = enabled s" "tracking (moved v s) = tracking s"
  "s_value (moved v s) =
     (if v < s_min s then (if pos s \<noteq> 0 \<and> \<not> blocked s then int_to_float s 0 else s_min s)
      else if v > s_max s then
        (if pos s \<noteq> 10 ^ 8 \<and> \<not> blocked s then int_to_float s (10 ^ 8) else s_max s)
      else v)"
  by (simp_all add: moved_def clamped_def placed_def Let_def)

lemma refreshed_simps [simp]:
  "s_min (refreshed v s) = s_min s" "s_max (refreshed v s) = s_max s"
  "enabled (refreshed v s) = enabled s" "tracking (refreshed v s) = tracking s"
  "s_value (refreshed v s) = (if v < s_min s then s_min s else if v > s_max s then s_max s else v)"
  "label (refreshed v s) = Some v" "blocked (refreshed v s) = False"
  by (simp_all add: refreshed_def)

lemma setMinimum_bare: "s_min s < s_max s \<Longrightarrow> setMinimum bare m s = Inr (narrowed_min m s)"
  by (simp add: setMinimum_def narrowed_min_def setValue_bare)

lemma setMaximum_bare: "s_min s < s_max s \<Longrightarrow> setMaximum bare m s = Inr (narrowed_max m s)"
  by (simp add: setMaximum_def narrowed_max_def setValue_bare)

lemma narrowed_min_simps [simp]:
  "s_max (narrowed_min m s) = s_max s"
  "s_min (narrowed_min m s) = (if s_max s \<le> m then s_min s else m)"
  "enabled (narrowed_min m s) = enabled s" "tracking (narrowed_min m s) = tracking s"
  by (simp_all add: narrowed_min_def)

lemma narrowed_max_simps [simp]:
  "s_min (narrowed_max m s) = s_min s"
  "s_max (narrowed_max m s) = (if s_min s \<ge> m then s_max s else m)"
  "enabled (narrowed_max m s) = enabled s" "tracking (narrowed_max m s) = tracking s"
  by (simp_all add: narrowed_max_def)



lemma upd_panel_id: "upd_panel i (\<lambda>p. p) w = w"
  by (simp add: upd_panel_def)




lemma for_each_upd:
  assumes "I w"
    and "\<And>i w'. i \<in> set is \<Longrightarrow> I w' \<Longrightarrow> f i w' = Inr (upd_panel i (g i) w') \<and> I (upd_panel i (g i) w')"
  shows "for_each is f w = Inr (fold (\<lambda>i. upd_panel i (g i)) is w) \<and> I (fold (\<lambda>i. upd_panel i (g i)) is w)"
  using assms
proof (induction "is" arbitrary: w)
  case Nil
  then show ?case by simp
next
  case (Cons i "is")
  have s: "f i w = Inr (upd_panel i (g i) w)" and I1: "I (upd_panel i (g i) w)"
    using Cons.prems(2) [of i w] Cons.prems(1) by simp_all
  have "for_each is f (upd_panel i (g i) w) = Inr (fold (\<lambda>i. upd_panel i (g i)) is (upd_panel i (g i) w))
      \<and> I (fold (\<lambda>i. upd_panel i (g i)) is (upd_panel i (g i) w))"
    by (rule Cons.IH [OF I1]) (use Cons.prems(2) in auto)
  then show ?case by (simp add: s)
qed

lemma fold_upd_panel_take:
  "k \<le> length (parameters w) \<Longrightarrow>
   fold (\<lambda>i. upd_panel i (g i)) [0 ..< k] w =
     w\<lparr>parameters := map (\<lambda>i. g i (parameters w ! i)) [0 ..< k] @ drop k (parameters w)\<rparr>"
proof (induction k)
  case 0
  then show ?case by simp
next
  case (Suc k)
  then have k: "k < length (parameters w)" by simp
  have d: "drop k (parameters w) = parameters w ! k # drop (Suc k) (parameters w)"
    using k by (simp add: Cons_nth_drop_Suc)
  show ?case
    using Suc k
    by (simp add: upd_panel_def nth_append d list_update_append)
qed

lemma fold_upd_panel:
  "fold (\<lambda>i. upd_panel i (g i)) [0 ..< length (parameters w)] w = map_panels g w"
  by (simp add: fold_upd_panel_take map_panels_def)

lemma map_panels_simps [simp]:
  "length (parameters (map_panels g w)) = length (parameters w)"
  "mstate (map_panels g w) = mstate w"
  "algo_choice (map_panels g w) = algo_choice w"
  "update_button (map_panels g w) = update_button w"
  "results_text (map_panels g w) = results_text w"
  "original_values (map_panels g w) = original_values w"
  "original_limits (map_panels g w) = original_limits w"
  "canvas (map_panels g w) = canvas w"
  "i < length (parameters w) \<Longrightarrow> parameters (map_panels g w) ! i = g i (parameters w ! i)"
  by (simp_all add: map_panels_def)

lemma upd_minuit_simps [simp]:
  "parameters (upd_minuit f w) = parameters w"
  "mstate (upd_minuit f w) = f (mstate w)"
  "algo_choice (upd_minuit f w) = algo_choice w"
  "update_button (upd_minuit f w) = update_button w"
  "results_text (upd_minuit f w) = results_text w"
  "original_values (upd_minuit f w) = original_values w"
  "original_limits (upd_minuit f w) = original_limits w"
  "canvas (upd_minuit f w) = canvas w"
  by (simp_all add: upd_minuit_def)

lemma wfwD:
  "wfw w \<Longrightarrow> i < length (parameters w) \<Longrightarrow> par (parameters w ! i) = i"
  "wfw w \<Longrightarrow> i < length (parameters w) \<Longrightarrow>
     s_min (slider (parameters w ! i)) < s_max (slider (parameters w ! i))"
  by (simp_all add: wfw_def)

lemma wfw_upd_panel:
  assumes "wfw w" and "i < length (parameters w)"
    and "par (f (parameters w ! i)) = i"
    and "s_min (slider (f (parameters w ! i))) < s_max (slider (f (parameters w ! i)))"
  shows "wfw (upd_panel i f w)"
  using assms by (simp add: wfw_def upd_panel_nth)

lemma wfw_cong:
  "parameters w' = parameters w \<Longrightarrow> wfw w' = wfw w"
  by (simp add: wfw_def)

lemma wfw_map_panels:
  assumes "wfw w"
    and "\<And>i. i < length (parameters w) \<Longrightarrow> par (g i (parameters w ! i)) = i \<and>
           s_min (slider (g i (parameters w ! i))) < s_max (slider (g i (parameters w ! i)))"
  shows "wfw (map_panels g w)"
  using assms by (simp add: wfw_def)

lemma fit_eq: "fit E w = (reports (algo_choice w), upd_minuit (run_algo E (algo_choice w)) w)"
  by (simp add: fit_def run_algo_def reports_def split: algo.splits)

lemma refresh_loop:
  assumes wf: "wfw w"
  shows "for_each [0 ..< length (parameters w)]
           (\<lambda>i w'. reset cb i (Some (m_values (mstate w') i)) False w') w =
         Inr (refresh_all (m_values (mstate w)) w)"
proof -
  let ?g = "\<lambda>i p. p\<lparr>slider := refreshed (m_values (mstate w) i) (slider p)\<rparr>"
  let ?f = "\<lambda>i w'. reset cb i (Some (m_values (mstate w') i)) False w'"
  let ?I = "\<lambda>w'. wfw w' \<and> mstate w' = mstate w \<and> length (parameters w') = length (parameters w)"
  let ?is = "[0 ..< length (parameters w)]"
  have "for_each ?is ?f w = Inr (fold (\<lambda>i. upd_panel i (?g i)) ?is w)
          \<and> ?I (fold (\<lambda>i. upd_panel i (?g i)) ?is w)"
  proof (rule for_each_upd [where I = ?I and f = ?f and g = ?g])
    show "?I w" using wf by simp
  next
    fix i w'
    assume m: "i \<in> set ?is" and I: "?I w'"
    have i: "i < length (parameters w')" using m I by simp
    have ok: "s_min (slider (parameters w' ! i)) < s_max (slider (parameters w' ! i))"
      using I i wfwD(2) by blast
    have p: "par (parameters w' ! i) = i" using I i wfwD(1) by blast
    have "wfw (upd_panel i (?g i) w')"
      by (rule wfw_upd_panel) (use I i ok p in simp_all)
    moreover have "?f i w' = Inr (upd_panel i (?g i) w')"
      using reset_value [OF i ok, of cb] I by simp
    ultimately show "?f i w' = Inr (upd_panel i (?g i) w') \<and> ?I (upd_panel i (?g i) w')"
      using I by simp
  qed
  then show ?thesis by (simp add: fold_upd_panel refresh_all_def)
qed

lemma refresh_all_simps [simp]:
  "length (parameters (refresh_all vals w)) = length (parameters w)"
  "mstate (refresh_all vals w) = mstate w"
  "algo_choice (refresh_all vals w) = algo_choice w"
  "update_button (refresh_all vals w) = update_button w"
  "results_text (refresh_all vals w) = results_text w"
  "original_values (refresh_all vals w) = original_values w"
  "original_limits (refresh_all vals w) = original_limits w"
  "canvas (refresh_all vals w) = canvas w"
  "i < length (parameters w) \<Longrightarrow>
     parameters (refresh_all vals w) ! i =
       (parameters w ! i)\<lparr>slider := refreshed (vals i) (slider (parameters w ! i))\<rparr>"
  by (simp_all add: refresh_all_def)

lemma wfw_refresh_all: "wfw w \<Longrightarrow> wfw (refresh_all vals w)"
  by (simp add: wfw_def)

lemma refresh_all_upd_minuit:
  "refresh_all vals (upd_minuit f w) = upd_minuit f (refresh_all vals w)"
  by (simp add: refresh_all_def map_panels_def upd_minuit_def)

lemma do_fit_no_plot_eq:
  assumes "wfw w"
  shows "do_fit_no_plot E cb w =
           Inr (reports (algo_choice w),
                refresh_all (m_values (run_algo E (algo_choice w) (mstate w)))
                  (upd_minuit (run_algo E (algo_choice w)) w))"
proof -
  let ?w1 = "upd_minuit (run_algo E (algo_choice w)) w"
  have wf1: "wfw ?w1" using assms by (simp add: wfw_def)
  show ?thesis
    using refresh_loop [OF wf1, of cb] by (simp add: do_fit_no_plot_def fit_eq)
qed

lemma fold_fun_upd_upt:
  "fold (\<lambda>i f. f(i := c i)) [0 ..< k] f0 j = (if j < k then c j else f0 j)"
  by (induction k) (simp_all add: less_Suc_eq)

lemma fold_upd_minuit_fixed:
  "fold (\<lambda>i. upd_minuit (\<lambda>m. m\<lparr>m_fixed := (m_fixed m)(i := c i)\<rparr>)) is w' =
   upd_minuit (\<lambda>m. m\<lparr>m_fixed := fold (\<lambda>i f. f(i := c i)) is (m_fixed m)\<rparr>) w'"
  by (induction "is" arbitrary: w') (simp_all add: upd_minuit_def)

lemma fix_all_but_fit_eq:
  "fix_all_but_fit w = upd_minuit (\<lambda>m. m\<lparr>m_fixed := temp_fixed w\<rparr>) w"
proof -
  let ?c = "\<lambda>i. \<not> fit_checked (parameters w ! i)"
  have "fold (\<lambda>i f. f(i := ?c i)) [0 ..< length (parameters w)] (m_fixed (mstate w)) = temp_fixed w"
    by (rule ext) (simp only: fold_fun_upd_upt temp_fixed_def)
  then show ?thesis
    unfolding fix_all_but_fit_def fold_upd_minuit_fixed by (simp add: upd_minuit_def)
qed

lemma on_parameter_change_eq:
  assumes "wfw w"
  shows "on_parameter_change E cb from_fit rs w =
     (if from_fit then
        plot_with_frame E True rs (w\<lparr>results_text := Some (mstate w), canvas := Blank\<rparr>)
      else if list_ex fit_checked (parameters w) then
        plot_with_frame E True (reports (algo_choice w)) ((auto_fit E w)\<lparr>canvas := Blank\<rparr>)
      else plot_with_frame E False rs (w\<lparr>canvas := Blank\<rparr>))"
proof -
  let ?w1 = "fix_all_but_fit w"
  have wf1: "wfw ?w1" using assms by (simp add: fix_all_but_fit_eq wfw_def)
  show ?thesis
    apply (simp add: on_parameter_change_def do_fit_no_plot_eq [OF wf1] Let_def)
    apply (simp add: fix_all_but_fit_eq auto_fit_def Let_def refresh_all_upd_minuit)
    apply (simp add: upd_minuit_def refresh_all_def map_panels_def)
    done
qed

lemma callback_Suc:
  "wfw w \<Longrightarrow> callback E (Suc n) w =
     (if list_ex fit_checked (parameters w) then
        plot_with_frame E True (reports (algo_choice w)) ((auto_fit E w)\<lparr>canvas := Blank\<rparr>)
      else plot_with_frame E False False (w\<lparr>canvas := Blank\<rparr>))"
  by (simp add: on_parameter_change_eq)

lemma outcome_Inr [simp]: "outcome E (Inr a) Q = Q a"
  by (simp add: outcome_def)

lemma outcome_Inl [simp]: "outcome E (Inl e) Q = (e = PlotError \<and> plot_can_abort E)"
  by (simp add: outcome_def)

lemma outcome_bindE:
  assumes "outcome E r P" and "\<And>a. P a \<Longrightarrow> outcome E (f a) Q"
  shows "outcome E (bindE r f) Q"
  using assms by (cases r) simp_all

lemma outcome_mono:
  assumes "outcome E r P" and "\<And>a. P a \<Longrightarrow> Q a"
  shows "outcome E r Q"
  using assms by (cases r) simp_all

lemma outcomeD: "outcome E r Q \<Longrightarrow> r = Inr a \<Longrightarrow> Q a"
  by simp

lemma outcome_returns: "outcome E r Q \<Longrightarrow> \<not> plot_can_abort E \<Longrightarrow> \<exists>a. r = Inr a \<and> Q a"
  by (cases r) simp_all

lemma plot_with_frame_outcome:
  "outcome E (plot_with_frame E ff rs w) (\<lambda>w'. \<exists>c. w' = w\<lparr>canvas := c\<rparr>)"
  by (auto simp: plot_with_frame_def plot_can_abort_def)

lemma core_simps [simp]:
  "par (core p) = par p" "tmin (core p) = tmin p" "tmax (core p) = tmax p"
  "fix_checked (core p) = fix_checked p" "fit_checked (core p) = fit_checked p"
  "step (core p) = step p" "original_value (core p) = original_value p"
  "p_original_limits (core p) = p_original_limits p"
  "s_min (slider (core p)) = s_min (slider p)" "s_max (slider (core p)) = s_max (slider p)"
  "enabled (slider (core p)) = enabled (slider p)"
  "tracking (slider (core p)) = tracking (slider p)"
  by (simp_all add: core_def)

lemma core_eqD:
  assumes "core p' = core p"
  shows "par p' = par p" "tmin p' = tmin p" "tmax p' = tmax p"
    "fix_checked p' = fix_checked p" "fit_checked p' = fit_checked p"
    "step p' = step p" "original_value p' = original_value p"
    "p_original_limits p' = p_original_limits p"
    "s_min (slider p') = s_min (slider p)" "s_max (slider p') = s_max (slider p)"
    "enabled (slider p') = enabled (slider p)" "tracking (slider p') = tracking (slider p)"
  using arg_cong [OF assms, of par] arg_cong [OF assms, of tmin] arg_cong [OF assms, of tmax]
    arg_cong [OF assms, of fix_checked] arg_cong [OF assms, of fit_checked]
    arg_cong [OF assms, of step] arg_cong [OF assms, of original_value]
    arg_cong [OF assms, of p_original_limits]
    arg_cong [OF assms, of "\<lambda>p. s_min (slider p)"] arg_cong [OF assms, of "\<lambda>p. s_max (slider p)"]
    arg_cong [OF assms, of "\<lambda>p. enabled (slider p)"]
    arg_cong [OF assms, of "\<lambda>p. tracking (slider p)"]
  by simp_all

lemma core_refreshed [simp]: "core (p\<lparr>slider := refreshed v (slider p)\<rparr>) = core p"
  by (simp add: core_def refreshed_def moved_def clamped_def placed_def Let_def)

lemma kept_refl [simp]: "kept w w"
  by (simp add: kept_def)

lemma kept_trans: "kept w w1 \<Longrightarrow> kept w1 w2 \<Longrightarrow> kept w w2"
  by (simp add: kept_def)

lemma kept_length: "kept w w' \<Longrightarrow> length (parameters w') = length (parameters w)"
  unfolding kept_def by (metis length_map)

lemma kept_nth:
  "kept w w' \<Longrightarrow> i < length (parameters w) \<Longrightarrow> core (parameters w' ! i) = core (parameters w ! i)"
  unfolding kept_def by (metis length_map nth_map)

lemma kept_canvas [simp]: "kept w (w'\<lparr>canvas := c\<rparr>) = kept w w'"
  by (simp add: kept_def)

lemma kept_fields:
  assumes "kept w w'" and "i < length (parameters w)"
  shows "par (parameters w' ! i) = par (parameters w ! i)"
    "tmin (parameters w' ! i) = tmin (parameters w ! i)"
    "tmax (parameters w' ! i) = tmax (parameters w ! i)"
    "fix_checked (parameters w' ! i) = fix_checked (parameters w ! i)"
    "fit_checked (parameters w' ! i) = fit_checked (parameters w ! i)"
    "step (parameters w' ! i) = step (parameters w ! i)"
    "original_value (parameters w' ! i) = original_value (parameters w ! i)"
    "p_original_limits (parameters w' ! i) = p_original_limits (parameters w ! i)"
    "s_min (slider (parameters w' ! i)) = s_min (slider (parameters w ! i))"
    "s_max (slider (parameters w' ! i)) = s_max (slider (parameters w ! i))"
    "enabled (slider (parameters w' ! i)) = enabled (slider (parameters w ! i))"
    "tracking (slider (parameters w' ! i)) = tracking (slider (parameters w ! i))"
  using core_eqD [OF kept_nth [OF assms]] by simp_all

lemma kept_wfw: "kept w w' \<Longrightarrow> wfw w' = wfw w"
  by (simp add: wfw_def kept_length kept_fields)

lemma kept_exclusive: "kept w w' \<Longrightarrow> exclusive w' = exclusive w"
proof -
  assume k: "kept w w'"
  have f: "m_fixed (mstate w') = m_fixed (mstate w)" using k by (simp add: kept_def)
  show ?thesis
    by (simp add: exclusive_def kept_length [OF k] kept_fields [OF k] f)
qed

lemma map_core_refresh_all: "map core (parameters (refresh_all vals w)) = map core (parameters w)"
  by (rule nth_equalityI) simp_all

lemma kept_auto_fit: "kept w (auto_fit E w)"
  by (simp add: kept_def auto_fit_def Let_def map_core_refresh_all)

lemma kept_settled: "kept w (settled E w)"
  by (simp add: settled_def kept_auto_fit)

lemma callback_outcome:
  assumes "wfw w"
  shows "outcome E (callback E (Suc n) w) (\<lambda>w'. \<exists>c. w' = (settled E w)\<lparr>canvas := c\<rparr>)"
proof (cases "list_ex fit_checked (parameters w)")
  case True
  then show ?thesis
    using plot_with_frame_outcome [of E True "reports (algo_choice w)" "(auto_fit E w)\<lparr>canvas := Blank\<rparr>"]
    by (simp add: on_parameter_change_eq [OF assms] settled_def)
next
  case False
  then show ?thesis
    using plot_with_frame_outcome [of E False False "w\<lparr>canvas := Blank\<rparr>"]
    by (simp add: on_parameter_change_eq [OF assms] settled_def)
qed

lemma click_fit_eq:
  "i < length (parameters w) \<Longrightarrow> click_fit E n i w = callback E n (fit_toggled i w)"
  apply (simp add: click_fit_def on_fit_toggled_def fit_toggled_def Let_def)
  apply (intro conjI impI arg_cong [where f = "callback E n"] arg_cong [where f = "upd_minuit _"] upd_panel_cong)
   apply simp_all
  done

lemma fit_toggled_simps:
  assumes "i < length (parameters w)"
  shows "length (parameters (fit_toggled i w)) = length (parameters w)"
    "fit_checked (parameters (fit_toggled i w) ! i) = (\<not> fit_checked (parameters w ! i))"
    "enabled (slider (parameters (fit_toggled i w) ! i)) = fit_checked (parameters w ! i)"
    "fix_checked (parameters (fit_toggled i w) ! i) = (fit_checked (parameters w ! i) \<and> fix_checked (parameters w ! i))"
    "par (parameters (fit_toggled i w) ! j) = par (parameters w ! j)"
    "s_min (slider (parameters (fit_toggled i w) ! j)) = s_min (slider (parameters w ! j))"
    "s_max (slider (parameters (fit_toggled i w) ! j)) = s_max (slider (parameters w ! j))"
    "j \<noteq> i \<Longrightarrow> parameters (fit_toggled i w) ! j = parameters w ! j"
    "m_fixed (mstate (fit_toggled i w)) =
       (if fit_checked (parameters w ! i) then m_fixed (mstate w)
        else (m_fixed (mstate w))(par (parameters w ! i) := False))"
  using assms by (auto simp: fit_toggled_def Let_def upd_panel_nth)

lemma wfw_fit_toggled: "wfw w \<Longrightarrow> i < length (parameters w) \<Longrightarrow> wfw (fit_toggled i w)"
  by (simp add: wfw_def fit_toggled_simps)

lemma exclusive_fit_toggled:
  assumes "wfw w" and "exclusive w" and "i < length (parameters w)"
  shows "exclusive (fit_toggled i w)"
  unfolding exclusive_def
proof (intro allI impI)
  fix j assume "j < length (parameters (fit_toggled i w))"
  then have j: "j < length (parameters w)" using assms(3) by (simp add: fit_toggled_simps)
  have pj: "par (parameters w ! j) = j" and pi: "par (parameters w ! i) = i"
    using assms j by (simp_all add: wfwD)
  have ex: "\<not> (fix_checked (parameters w ! j) \<and> fit_checked (parameters w ! j))"
    "\<not> (m_fixed (mstate w) j \<and> fit_checked (parameters w ! j))"
    using assms(2) j pj by (auto simp: exclusive_def)
  show "\<not> (fix_checked (parameters (fit_toggled i w) ! j) \<and> fit_checked (parameters (fit_toggled i w) ! j))
      \<and> \<not> (m_fixed (mstate (fit_toggled i w)) (par (parameters (fit_toggled i w) ! j))
            \<and> fit_checked (parameters (fit_toggled i w) ! j))"
    using ex pj pi assms(3) by (cases "j = i") (auto simp: fit_toggled_simps)
qed

lemma click_fix_simps:
  assumes "i < length (parameters w)"
  shows "length (parameters (click_fix i w)) = length (parameters w)"
    "fix_checked (parameters (click_fix i w) ! i) = (\<not> fix_checked (parameters w ! i))"
    "fit_checked (parameters (click_fix i w) ! i) = (fix_checked (parameters w ! i) \<and> fit_checked (parameters w ! i))"
    "par (parameters (click_fix i w) ! j) = par (parameters w ! j)"
    "slider (parameters (click_fix i w) ! j) = slider (parameters w ! j)"
    "j \<noteq> i \<Longrightarrow> parameters (click_fix i w) ! j = parameters w ! j"
    "m_fixed (mstate (click_fix i w)) =
       (m_fixed (mstate w))(par (parameters w ! i) := \<not> fix_checked (parameters w ! i))"
  using assms by (auto simp: click_fix_def on_fix_toggled_def Let_def upd_panel_nth)

lemma wfw_click_fix: "wfw w \<Longrightarrow> i < length (parameters w) \<Longrightarrow> wfw (click_fix i w)"
  by (simp add: wfw_def click_fix_simps)

lemma exclusive_click_fix:
  assumes "wfw w" and "exclusive w" and "i < length (parameters w)"
  shows "exclusive (click_fix i w)"
  unfolding exclusive_def
proof (intro allI impI)
  fix j assume "j < length (parameters (click_fix i w))"
  then have j: "j < length (parameters w)" using assms(3) by (simp add: click_fix_simps)
  have pj: "par (parameters w ! j) = j" and pi: "par (parameters w ! i) = i"
    using assms j by (simp_all add: wfwD)
  have ex: "\<not> (fix_checked (parameters w ! j) \<and> fit_checked (parameters w ! j))"
    "\<not> (m_fixed (mstate w) j \<and> fit_checked (parameters w ! j))"
    using assms(2) j pj by (auto simp: exclusive_def)
  show "\<not> (fix_checked (parameters (click_fix i w) ! j) \<and> fit_checked (parameters (click_fix i w) ! j))
      \<and> \<not> (m_fixed (mstate (click_fix i w)) (par (parameters (click_fix i w) ! j))
            \<and> fit_checked (parameters (click_fix i w) ! j))"
    using ex pj pi assms(3) by (cases "j = i") (auto simp: click_fix_simps)
qed

lemma click_fit_outcome:
  assumes "wfw w" and "i < length (parameters w)"
  shows "outcome E (click_fit E (Suc n) i w)
           (\<lambda>w'. \<exists>c. w' = (settled E (fit_toggled i w))\<lparr>canvas := c\<rparr>)"
  unfolding click_fit_eq [OF assms(2)]
  by (rule callback_outcome) (rule wfw_fit_toggled [OF assms])

lemma settled_fields:
  assumes "i < length (parameters w)"
  shows "length (parameters (settled E w)) = length (parameters w)"
    "par (parameters (settled E w) ! i) = par (parameters w ! i)"
    "fix_checked (parameters (settled E w) ! i) = fix_checked (parameters w ! i)"
    "fit_checked (parameters (settled E w) ! i) = fit_checked (parameters w ! i)"
    "enabled (slider (parameters (settled E w) ! i)) = enabled (slider (parameters w ! i))"
    "m_fixed (mstate (settled E w)) = m_fixed (mstate w)"
  using kept_fields [OF kept_settled assms, of E] kept_length [OF kept_settled, of E w]
    kept_settled [of w E]
  by (simp_all add: kept_def)

subsection \<open>The concrete window\<close>

lemma round_half_away_of_int [simp]: "round_half_away (of_int n) = n"
proof -
  have "\<lfloor>real_of_int n + 1 / 2\<rfloor> = n" "\<lfloor>- real_of_int n + 1 / 2\<rfloor> = - n"
    by (rule floor_unique; simp)+
  then show ?thesis by (simp add: round_half_away_def)
qed

lemma QDoubleSpinBox_round_of_int:
  "QDoubleSpinBox_round (of_int n) = fl (of_int n)"
proof -
  have "real_of_int n * 100 = real_of_int (n * 100)" by simp
  then have "round_half_away (real_of_int n * 100) = n * 100"
    by (simp only: round_half_away_of_int)
  then show ?thesis by (simp add: QDoubleSpinBox_round_def)
qed

lemma QDoubleSpinBox_round_numeral [simp]:
  "(numeral k :: int) < 2 ^ 53 \<Longrightarrow> QDoubleSpinBox_round (numeral k) = numeral k"
  using QDoubleSpinBox_round_of_int [of "numeral k"] by simp

lemma QDoubleSpinBox_round_0 [simp]: "QDoubleSpinBox_round 0 = 0"
  using QDoubleSpinBox_round_of_int [of 0] by simp

lemma QDoubleSpinBox_round_1 [simp]: "QDoubleSpinBox_round 1 = 1"
  using QDoubleSpinBox_round_of_int [of 1] by simp

lemma float_max_of_int: "float_max = real_of_int ((2 ^ 53 - 1) * 2 ^ 971)"
proof -
  have "(2 :: real) ^ 1023 = 2 ^ 52 * 2 ^ 971" by (simp flip: power_add)
  then have "float_max = (2 - 1 / 2 ^ 52) * (2 ^ 52 * 2 ^ 971)" by (simp add: float_max_def)
  also have "\<dots> = (2 ^ 53 - 1) * 2 ^ 971" by (simp add: algebra_simps)
  finally show ?thesis by simp
qed

lemma fl_float_max [simp]: "fl float_max = float_max" "fl (- float_max) = - float_max"
proof -
  have "float_max = real_of_int (2 ^ 53 - 1) * 2 powi 971"
    unfolding float_max_of_int by simp
  moreover have "fl (real_of_int (2 ^ 53 - 1) * 2 powi 971) = real_of_int (2 ^ 53 - 1) * 2 powi 971"
    by (rule fl_exact) simp
  ultimately show "fl float_max = float_max" by simp
  then show "fl (- float_max) = - float_max" by (simp add: fl_minus)
qed

lemma QDoubleSpinBox_round_float_max [simp]:
  "QDoubleSpinBox_round float_max = float_max"
  "QDoubleSpinBox_round (- float_max) = - float_max"
proof -
  show "QDoubleSpinBox_round float_max = float_max"
    using QDoubleSpinBox_round_of_int [of "(2 ^ 53 - 1) * 2 ^ 971"] fl_float_max(1)
    unfolding float_max_of_int [symmetric] by simp
  have "- float_max = real_of_int (- ((2 ^ 53 - 1) * 2 ^ 971))"
    unfolding float_max_of_int by simp
  then show "QDoubleSpinBox_round (- float_max) = - float_max"
    using QDoubleSpinBox_round_of_int [of "- ((2 ^ 53 - 1) * 2 ^ 971)"] fl_float_max(2)
    by simp
qed

lemma float_max_ge:
  fixes n :: nat
  assumes "7 \<le> n"
  shows "(100::real) < (2 - 1 / 2 ^ 52) * 2 ^ n"
proof -
  have "(2::real) ^ 7 \<le> 2 ^ n" using assms by (intro power_increasing) simp_all
  moreover have "(1::real) \<le> 2 - 1 / 2 ^ 52" by simp
  ultimately have "1 * (2::real) ^ 7 \<le> (2 - 1 / 2 ^ 52) * 2 ^ n"
    by (intro mult_mono) simp_all
  then show ?thesis by simp
qed

lemma float_max_large: "100 < float_max"
  unfolding float_max_def by (rule float_max_ge) simp

lemma float_max_nums:
  "(0::real) < float_max" "- float_max < 0"
  "3 < float_max" "- float_max < 3" "4 < float_max" "- float_max < 4"
  "6 < float_max" "- float_max < 6" "7 < float_max" "- float_max < 7"
  "- float_max < float_max"
  using float_max_large by simp_all

lemma float_max_nums_not:
  "\<not> float_max < 0" "\<not> 0 < - float_max"
  "\<not> float_max < 3" "\<not> 3 < - float_max" "\<not> float_max < 4" "\<not> 4 < - float_max"
  "\<not> float_max < 6" "\<not> 6 < - float_max" "\<not> float_max < 7" "\<not> 7 < - float_max"
  "\<not> float_max < - float_max" "\<not> float_max \<le> - float_max"
  using float_max_large by simp_all

lemma range0:
  "QDoubleSpinBox_setRange (make_finite MInf) (make_finite PInf) QDoubleSpinBox_init =
     \<lparr>sb_value = 0, sb_minimum = - float_max, sb_maximum = float_max, sb_step = 1,
      sb_blocked = False\<rparr>"
  by (simp add: QDoubleSpinBox_setRange_def set_range_def make_finite_def QDoubleSpinBox_init_def
      bound_def float_max_nums float_max_nums_not Let_def)

text \<open>The float arithmetic of the constructor for the value 5 without limits.\<close>

lemma step_m0:
  "fmul 100 (fl (1 / 100)) = 1" "fmul (fl (1 / 10)) 2 = fl (1 / 5)"
proof -
  have f1: "fl (1 / 100) = 5764607523034235 / 576460752303423488"
    using fl_val [of "- 7" "1 / 100" 5764607523034235] by (simp add: power_int_minus)
  have f2: "fl (144115188075855875 / 144115188075855872) = 1"
    using fl_val [of 0 "144115188075855875 / 144115188075855872" 4503599627370496] by (simp add: power_int_minus)
  have f3: "fl (1 / 10) = 3602879701896397 / 36028797018963968"
    using fl_val [of "- 4" "1 / 10" 7205759403792794] by (simp add: power_int_minus)
  have f4: "fl (3602879701896397 / 18014398509481984) = 3602879701896397 / 18014398509481984"
    using fl_val [of "- 3" "3602879701896397 / 18014398509481984" 7205759403792794] by (simp add: power_int_minus)
  have f5: "fl (1 / 5) = 3602879701896397 / 18014398509481984"
    using fl_val [of "- 3" "1 / 5" 7205759403792794] by (simp add: power_int_minus)
  show "fmul 100 (fl (1 / 100)) = 1" "fmul (fl (1 / 10)) 2 = fl (1 / 5)"
    by (simp_all add: fmul_def f1 f2 f3 f4 f5)
qed

lemma window_m0:
  "fsub 5 (fmul 100 (fl (1 / 100))) = 4" "fadd 5 (fmul 100 (fl (1 / 100))) = 6"
  "fmul (fl (1 / 10)) (fsub 6 4) = fl (1 / 5)"
  by (simp_all add: step_m0 fsub_def fadd_def)

lemma slider_m0:
  "setMinimum bare 4 FloatSlider_init = Inr FloatSlider_init"
  "setMaximum bare 6 FloatSlider_init =
      Inr \<lparr>pos = 8333333, s_min = 0, s_max = 6, s_value = 1 / 2, label = None,
        blocked = False, enabled = True, tracking = True, emitted = []\<rparr>"
  "setValue bare 5 \<lparr>pos = 8333333, s_min = 0, s_max = 6, s_value = 1 / 2, label = None,
        blocked = False, enabled = True, tracking = True, emitted = []\<rparr> =
      Inr \<lparr>pos = 83333333, s_min = 0, s_max = 6, s_value = 5, label = None,
        blocked = False, enabled = True, tracking = True, emitted = []\<rparr>"
proof -
  have f1: "fl (1 / 2) = 1 / 2"
    using fl_val [of "- 1" "1 / 2" 4503599627370496] by (simp add: power_int_minus)
  have f2: "fl 6 = 6"
    using fl_val [of 2 "6" 6755399441055744] by (simp add: power_int_minus)
  have f3: "fl (1 / 12) = 6004799503160661 / 72057594037927936"
    using fl_val [of "- 4" "1 / 12" 6004799503160661] by (simp add: power_int_minus)
  have f4: "fl (2345624805922133203125 / 281474976710656) = 8947848533333333 / 1073741824"
    using fl_val [of 22 "2345624805922133203125 / 281474976710656" 8947848533333333] by (simp add: power_int_minus)
  have f5: "fl 5 = 5"
    using fl_val [of 2 "5" 5629499534213120] by (simp add: power_int_minus)
  have f6: "fl (5 / 6) = 7505999378950827 / 9007199254740992"
    using fl_val [of "- 1" "5 / 6" 7505999378950827] by (simp add: power_int_minus)
  have f7: "fl (2932031007402666796875 / 35184372088832) = 2796202666666667 / 33554432"
    using fl_val [of 26 "2932031007402666796875 / 35184372088832" 5592405333333334] by (simp add: power_int_minus)
  show "setMinimum bare 4 FloatSlider_init = Inr FloatSlider_init"
    by (simp add: setMinimum_def FloatSlider_init_def)
  show "setMaximum bare 6 FloatSlider_init =
      Inr \<lparr>pos = 8333333, s_min = 0, s_max = 6, s_value = 1 / 2, label = None,
        blocked = False, enabled = True, tracking = True, emitted = []\<rparr>"
    by (simp add: setMaximum_def FloatSlider_init_def setValue_bare moved_def placed_def
        py_int_def fsub_def fdiv_def fmul_def f1 f2 f3 f4 f5 f6 f7)
  show "setValue bare 5 \<lparr>pos = 8333333, s_min = 0, s_max = 6, s_value = 1 / 2, label = None,
        blocked = False, enabled = True, tracking = True, emitted = []\<rparr> =
      Inr \<lparr>pos = 83333333, s_min = 0, s_max = 6, s_value = 5, label = None,
        blocked = False, enabled = True, tracking = True, emitted = []\<rparr>"
    by (simp add: setValue_bare moved_def placed_def py_int_def fsub_def fdiv_def fmul_def
        f1 f2 f3 f4 f5 f6 f7)
qed

lemma spin_m0:
  "QDoubleSpinBox_setMinimum (make_finite MInf)
     ((QDoubleSpinBox_setValue (Fin 4)
        (QDoubleSpinBox_setRange (make_finite MInf) (make_finite PInf) QDoubleSpinBox_init))
      \<lparr>sb_step := fl (1 / 5)\<rparr>) = tmin P0"
  "QDoubleSpinBox_setMaximum (make_finite PInf)
     ((QDoubleSpinBox_setValue (Fin 6)
        (QDoubleSpinBox_setRange (make_finite MInf) (make_finite PInf) QDoubleSpinBox_init))
      \<lparr>sb_step := fl (1 / 5)\<rparr>) = tmax P0"
  using range0
  by (simp_all add: P0_def QDoubleSpinBox_setValue_def QDoubleSpinBox_setMinimum_def
      QDoubleSpinBox_setMaximum_def set_range_def bound_def make_finite_def rounded_def
      float_max_nums float_max_nums_not Let_def)

lemma Parameter_init_m0: "Parameter_init m0 0 = Inr P0"
proof -
  have v: "m_values m0 0 = 5" "m_limits m0 0 = (MInf, PInf)" "m_fixed m0 0 = False"
    by (simp_all add: m0_def)
  have g: "guess_initial_step 5 MInf PInf = fl (1 / 100)"
    by (simp add: guess_initial_step_def)
  show ?thesis
    unfolding Parameter_init_def v fst_conv snd_conv g Let_def
    by (simp add: window_m0 slider_m0 spin_m0) (simp add: P0_def)
qed

lemma MainWindow_init_m0: "MainWindow_init E0 m0 = Inr W0"
proof -
  have "npar m0 = 1" "m_values m0 = (\<lambda>_. 5)" "m_limits m0 = (\<lambda>_. (MInf, PInf))"
    by (simp_all add: m0_def)
  moreover have "visualize_ok E0 m0" by (simp add: E0_def)
  ultimately show ?thesis
    by (simp add: MainWindow_init_def Parameter_init_m0 plot_with_frame_def W0_def)
qed

lemma wfw_W0: "wfw W0"
  by (simp add: wfw_def W0_def P0_def)

lemma exclusive_W0: "exclusive W0"
  by (simp add: exclusive_def W0_def P0_def)

lemma E0_never_aborts: "\<not> plot_can_abort E0"
  by (simp add: plot_can_abort_def E0_def)

lemma toggles_outcome:
  assumes "wfw w" and "exclusive w" and "\<forall>t \<in> set ts. panel_of t < length (parameters w)"
  shows "outcome E (toggles E (Suc n) ts w)
           (\<lambda>w'. exclusive w' \<and> wfw w' \<and> length (parameters w') = length (parameters w))"
  using assms
proof (induction ts arbitrary: w)
  case Nil
  then show ?case by simp
next
  case (Cons t ts)
  show ?case
  proof (cases t)
    case (Fix i)
    then have i: "i < length (parameters w)" using Cons.prems(3) by simp
    have len: "length (parameters (click_fix i w)) = length (parameters w)"
      using i by (simp add: click_fix_simps)
    have "outcome E (toggles E (Suc n) ts (click_fix i w))
        (\<lambda>w'. exclusive w' \<and> wfw w' \<and> length (parameters w') = length (parameters (click_fix i w)))"
      by (rule Cons.IH)
        (use Cons.prems i len in \<open>simp_all add: wfw_click_fix exclusive_click_fix\<close>)
    then show ?thesis using Fix len by simp
  next
    case (Fit i)
    then have i: "i < length (parameters w)" using Cons.prems(3) by simp
    let ?w1 = "fit_toggled i w"
    have k: "kept ?w1 (settled E ?w1)" by (rule kept_settled)
    have wf1: "wfw ?w1" and ex1: "exclusive ?w1"
      using Cons.prems i by (simp_all add: wfw_fit_toggled exclusive_fit_toggled)
    have len1: "length (parameters ?w1) = length (parameters w)"
      using i by (simp add: fit_toggled_simps)
    have "outcome E (bindE (click_fit E (Suc n) i w) (toggles E (Suc n) ts))
        (\<lambda>w'. exclusive w' \<and> wfw w' \<and> length (parameters w') = length (parameters w))"
    proof (rule outcome_bindE [OF click_fit_outcome [OF Cons.prems(1) i]])
      fix a assume "\<exists>c. a = (settled E ?w1)\<lparr>canvas := c\<rparr>"
      then obtain c where a: "a = (settled E ?w1)\<lparr>canvas := c\<rparr>" by blast
      have ka: "kept ?w1 a" using k a by simp
      have la: "length (parameters a) = length (parameters w)"
        using kept_length [OF ka] len1 by simp
      have "outcome E (toggles E (Suc n) ts a)
          (\<lambda>w'. exclusive w' \<and> wfw w' \<and> length (parameters w') = length (parameters a))"
        by (rule Cons.IH)
          (use ka wf1 ex1 la Cons.prems(3) in \<open>simp_all add: kept_wfw kept_exclusive\<close>)
      then show "outcome E (toggles E (Suc n) ts a)
          (\<lambda>w'. exclusive w' \<and> wfw w' \<and> length (parameters w') = length (parameters w))"
        using la by simp
    qed
    then show ?thesis using Fit by simp
  qed
qed

text \<open>The window with two parameters.\<close>

lemma Parameter_init_m2_0: "Parameter_init m2 0 = Inr P0"
proof -
  have v: "m_values m2 0 = 5" "m_limits m2 0 = (MInf, PInf)" "m_fixed m2 0 = False"
    by (simp_all add: m2_def)
  have g: "guess_initial_step 5 MInf PInf = fl (1 / 100)"
    by (simp add: guess_initial_step_def)
  show ?thesis
    unfolding Parameter_init_def v fst_conv snd_conv g Let_def
    by (simp add: window_m0 slider_m0 spin_m0) (simp add: P0_def)
qed

lemma Parameter_init_m2_1: "Parameter_init m2 1 = Inr P1"
proof -
  have f1: "fl (1 / 100) = 5764607523034235 / 576460752303423488"
    using fl_val [of "- 7" "1 / 100" 5764607523034235] by (simp add: power_int_minus)
  have f2: "fl (5764607523034235 / 576460752303423488) = 5764607523034235 / 576460752303423488"
    using fl_val [of "- 7" "5764607523034235 / 576460752303423488" 5764607523034235] by (simp add: power_int_minus)
  have f3: "fl (1 / 10) = 3602879701896397 / 36028797018963968"
    using fl_val [of "- 4" "1 / 10" 7205759403792794] by (simp add: power_int_minus)
  have f4: "fl (3602879701896397 / 36028797018963968) = 3602879701896397 / 36028797018963968"
    using fl_val [of "- 4" "3602879701896397 / 36028797018963968" 7205759403792794] by (simp add: power_int_minus)
  have f5: "fl (1 / 2) = 1 / 2"
    using fl_val [of "- 1" "1 / 2" 4503599627370496] by (simp add: power_int_minus)
  have f6: "fl 1 = 1"
    using fl_val [of 0 "1" 4503599627370496] by (simp add: power_int_minus)
  have f7: "fl 50000000 = 50000000"
    using fl_val [of 25 "50000000" 6710886400000000] by (simp add: power_int_minus)
  have v: "m_values m2 1 = 1 / 2" "m_limits m2 1 = (Fin 0, Fin 1)" "m_fixed m2 1 = False"
    by (simp_all add: m2_def)
  have g: "guess_initial_step (1 / 2) (Fin 0) (Fin 1) = fl (1 / 100)"
    by (simp add: guess_initial_step_def fmul_def fsub_def f1 f2 f3 f4 f5 f6 f7)
  have st: "fmul (fl (1 / 10)) (fsub 1 0) = fl (1 / 10)"
    by (simp add: fmul_def fsub_def f1 f2 f3 f4 f5 f6 f7)
  have s1: "setMinimum bare 0 FloatSlider_init = Inr FloatSlider_init"
    "setMaximum bare 1 FloatSlider_init = Inr FloatSlider_init"
    "setValue bare (1 / 2) FloatSlider_init = Inr FloatSlider_init"
    by (simp_all add: setMinimum_def setMaximum_def FloatSlider_init_def setValue_bare moved_def
        placed_def py_int_def fsub_def fdiv_def fmul_def f1 f2 f3 f4 f5 f6 f7)
  have t1: "QDoubleSpinBox_setMinimum 0
     ((QDoubleSpinBox_setValue (Fin 0)
        (QDoubleSpinBox_setRange (make_finite MInf) (make_finite PInf) QDoubleSpinBox_init))
      \<lparr>sb_step := fl (1 / 10)\<rparr>) = tmin P1"
    "QDoubleSpinBox_setMaximum 1
     ((QDoubleSpinBox_setValue (Fin 1)
        (QDoubleSpinBox_setRange (make_finite MInf) (make_finite PInf) QDoubleSpinBox_init))
      \<lparr>sb_step := fl (1 / 10)\<rparr>) = tmax P1"
    unfolding range0 using float_max_large
    by (simp_all add: P1_def QDoubleSpinBox_setValue_def QDoubleSpinBox_setMinimum_def
        QDoubleSpinBox_setMaximum_def set_range_def bound_def rounded_def Let_def)
  show ?thesis
    unfolding Parameter_init_def v fst_conv snd_conv g Let_def
    using make_finite_def [of "Fin 0"] make_finite_def [of "Fin 1"]
    by (simp add: st s1 t1) (simp add: P1_def FloatSlider_init_def)
qed

lemma MainWindow_init_m2: "MainWindow_init E2 m2 = Inr W2"
proof -
  have n: "[0 ..< npar m2] = [0, 1]" by (simp add: m2_def upt_rec)
  have "visualize_ok E2 m2" by (simp add: E2_def)
  then show ?thesis
    unfolding MainWindow_init_def n using Parameter_init_m2_1
    by (simp add: Parameter_init_m2_0 plot_with_frame_def W2_def)
qed

lemma wfw_W2: "wfw W2"
  by (simp add: wfw_def W2_def P0_def P1_def less_Suc_eq)

lemma E2_never_aborts: "\<not> plot_can_abort E2"
  by (simp add: plot_can_abort_def E2_def)

subsection \<open>The Fit button\<close>

lemma plot_with_frame_drawn:
  "outcome E (plot_with_frame E ff rs w) (\<lambda>w'. w' = w\<lparr>canvas := drawn E ff rs (mstate w)\<rparr>)"
  by (auto simp: plot_with_frame_def plot_can_abort_def drawn_def)

lemma click_fit_button_eq:
  assumes "wfw w"
  shows "click_fit_button E n w =
           plot_with_frame E True (reports (algo_choice w)) ((fitted E w)\<lparr>canvas := Blank\<rparr>)"
proof -
  let ?w2 = "refresh_all (m_values (run_algo E (algo_choice w) (mstate w)))
                  (upd_minuit (run_algo E (algo_choice w)) w)"
  have wf2: "wfw ?w2" using assms by (simp add: wfw_def)
  show ?thesis
    by (simp add: click_fit_button_def do_fit_def do_fit_no_plot_eq [OF assms]
        on_parameter_change_eq [OF wf2] fitted_def Let_def)
       (cases "plot_with_frame E True (reports (algo_choice w))
           (?w2\<lparr>results_text := Some (run_algo E (algo_choice w) (mstate w)), canvas := Blank\<rparr>)";
        simp)
qed

lemma ok_narrowed_min:
  "s_min s < s_max s \<Longrightarrow> s_min (narrowed_min m s) < s_max (narrowed_min m s)"
  by simp

lemma ok_narrowed_max:
  "s_min s < s_max s \<Longrightarrow> s_min (narrowed_max m s) < s_max (narrowed_max m s)"
  by simp

lemma Parameter_init_Inr:
  "\<exists>P. Parameter_init m p = Inr P \<and> par P = p
       \<and> s_min (slider P) < s_max (slider P)
       \<and> step P = guess_initial_step (m_values m p) (fst (m_limits m p)) (snd (m_limits m p))
       \<and> p_original_limits P = finite_window m p
       \<and> original_value P = m_values m p
       \<and> fix_checked P = m_fixed m p \<and> \<not> fit_checked P"
proof -
  let ?val = "m_values m p"
  let ?stp = "guess_initial_step ?val (fst (m_limits m p)) (snd (m_limits m p))"
  let ?a = "case fst (m_limits m p) of Fin a \<Rightarrow> a | _ \<Rightarrow> fsub ?val (fmul 100 ?stp)"
  let ?b = "case snd (m_limits m p) of Fin b \<Rightarrow> b | _ \<Rightarrow> fadd ?val (fmul 100 ?stp)"
  let ?s1 = "narrowed_min ?a FloatSlider_init"
  let ?s2 = "narrowed_max ?b ?s1"
  have ok0: "s_min FloatSlider_init < s_max FloatSlider_init"
    by (simp add: FloatSlider_init_def)
  have ok1: "s_min ?s1 < s_max ?s1" by (rule ok_narrowed_min [OF ok0])
  have ok2: "s_min ?s2 < s_max ?s2" by (rule ok_narrowed_max [OF ok1])
  have e1: "setMinimum bare ?a FloatSlider_init = Inr ?s1" by (rule setMinimum_bare [OF ok0])
  have e2: "setMaximum bare ?b ?s1 = Inr ?s2" by (rule setMaximum_bare [OF ok1])
  have e3: "setValue bare ?val ?s2 = Inr (moved ?val ?s2)" by (rule setValue_bare [OF ok2])
  show ?thesis
    unfolding Parameter_init_def Let_def e1 e2 e3 bindE_simps
    using ok2 by (simp add: finite_window_def Let_def)
qed

lemma map_err_Inr:
  assumes "\<And>x. x \<in> set xs \<Longrightarrow> \<exists>y. f x = Inr y \<and> R x y"
  shows "\<exists>ys. map_err f xs = Inr ys \<and> length ys = length xs
           \<and> (\<forall>i < length xs. R (xs ! i) (ys ! i))"
  using assms
proof (induction xs)
  case Nil
  then show ?case by simp
next
  case (Cons x xs)
  obtain y where y: "f x = Inr y" "R x y" using Cons.prems [of x] by auto
  obtain ys where ys: "map_err f xs = Inr ys" "length ys = length xs"
    "\<forall>i < length xs. R (xs ! i) (ys ! i)"
    using Cons.IH Cons.prems by auto
  have "\<forall>i < length (x # xs). R ((x # xs) ! i) ((y # ys) ! i)"
    using y ys by (auto simp: nth_Cons split: nat.splits)
  then show ?case using y ys by simp
qed

lemma MainWindow_init_outcome:
  "outcome E (MainWindow_init E m)
     (\<lambda>w. wfw w \<and> exclusive w \<and> mstate w = m \<and> length (parameters w) = npar m
          \<and> original_values w = m_values m \<and> original_limits w = m_limits m
          \<and> (\<forall>i < npar m. p_original_limits (parameters w ! i) = finite_window m i
                          \<and> original_value (parameters w ! i) = m_values m i))"
proof -
  let ?R = "\<lambda>p P. par P = p \<and> s_min (slider P) < s_max (slider P)
       \<and> p_original_limits P = finite_window m p \<and> original_value P = m_values m p
       \<and> \<not> fit_checked P"
  have "\<exists>ys. map_err (Parameter_init m) [0 ..< npar m] = Inr ys \<and> length ys = length [0 ..< npar m]
           \<and> (\<forall>i < length [0 ..< npar m]. ?R ([0 ..< npar m] ! i) (ys ! i))"
    by (rule map_err_Inr) (use Parameter_init_Inr [of m] in blast)
  then obtain ps where ps: "map_err (Parameter_init m) [0 ..< npar m] = Inr ps"
    "length ps = npar m" "\<forall>i < npar m. ?R i (ps ! i)"
    by auto
  show ?thesis
    unfolding MainWindow_init_def ps bindE_simps
    by (rule outcome_mono [OF plot_with_frame_drawn]) (use ps in \<open>simp add: wfw_def exclusive_def\<close>)
qed


lemma panel_reset_simps [simp]:
  "par (panel_reset v p) = par p" "fix_checked (panel_reset v p) = fix_checked p"
  "fit_checked (panel_reset v p) = fit_checked p" "step (panel_reset v p) = step p"
  "original_value (panel_reset v p) = original_value p"
  "p_original_limits (panel_reset v p) = p_original_limits p"
  "sb_value (tmin (panel_reset v p)) =
     bound (tmin p) (Fin (QDoubleSpinBox_round (fst (p_original_limits p))))"
  "sb_value (tmax (panel_reset v p)) =
     bound (tmax p) (Fin (QDoubleSpinBox_round (snd (p_original_limits p))))"
  "label (slider (panel_reset v p)) = Some v"
  "blocked (slider (panel_reset v p)) = False"
  "enabled (slider (panel_reset v p)) = enabled (slider p)"
  by (simp_all add: panel_reset_def Let_def)









subsection \<open>Construction and Reset\<close>



lemma Parameter_init_fields:
  "\<exists>P. Parameter_init m p = Inr P \<and> par P = p
     \<and> s_min (slider P) < s_max (slider P) \<and> \<not> fit_checked P
     \<and> step P =
         (if isfinite (fst (m_limits m p)) \<and> isfinite (snd (m_limits m p))
          then fmul (fl (1 / 100))
                 (fsub (make_finite (snd (m_limits m p))) (make_finite (fst (m_limits m p))))
          else fl (1 / 100))
     \<and> fst (p_original_limits P) =
         (if isfinite (fst (m_limits m p)) then make_finite (fst (m_limits m p))
          else fsub (m_values m p) (fmul 100 (step P)))
     \<and> snd (p_original_limits P) =
         (if isfinite (snd (m_limits m p)) then make_finite (snd (m_limits m p))
          else fadd (m_values m p) (fmul 100 (step P)))
     \<and> original_value P = m_values m p"
proof -
  obtain P where P: "Parameter_init m p = Inr P" "par P = p"
    "s_min (slider P) < s_max (slider P)" "\<not> fit_checked P"
    "step P = guess_initial_step (m_values m p) (fst (m_limits m p)) (snd (m_limits m p))"
    "p_original_limits P = finite_window m p" "original_value P = m_values m p"
    using Parameter_init_Inr [of m p] by blast
  obtain lo hi where l: "m_limits m p = (lo, hi)" by (cases "m_limits m p")
  have "step P =
         (if isfinite (fst (m_limits m p)) \<and> isfinite (snd (m_limits m p))
          then fmul (fl (1 / 100))
                 (fsub (make_finite (snd (m_limits m p))) (make_finite (fst (m_limits m p))))
          else fl (1 / 100))"
    unfolding P l
    by (cases lo; cases hi; simp add: guess_initial_step_def isfinite_def make_finite_def)
  moreover have "fst (p_original_limits P) =
         (if isfinite (fst (m_limits m p)) then make_finite (fst (m_limits m p))
          else fsub (m_values m p) (fmul 100 (step P)))"
    unfolding P l
    by (cases lo; simp add: finite_window_def Let_def isfinite_def make_finite_def l)
  moreover have "snd (p_original_limits P) =
         (if isfinite (snd (m_limits m p)) then make_finite (snd (m_limits m p))
          else fadd (m_values m p) (fmul 100 (step P)))"
    unfolding P l
    by (cases hi; simp add: finite_window_def Let_def isfinite_def make_finite_def l)
  ultimately show ?thesis using P(1-4,7) by blast
qed





subsection \<open>Edits of the limit fields\<close>

lemma bound_blocked [simp]: "bound (b\<lparr>sb_blocked := f\<rparr>) x = bound b x"
  by (cases x) (simp_all add: bound_def)

lemma on_min_change_rejected:
  assumes "i < length (parameters w)"
    and "sb_value (tmax (parameters w ! i)) \<le> sb_value (tmin (parameters w ! i))"
  shows "on_min_change cb i w =
     Inr (upd_panel i (\<lambda>p. p\<lparr>tmin := (tmin p)
            \<lparr>sb_value := bound (tmin p) (rounded (fst (m_limits (mstate w) (par p)))),
              sb_blocked := False\<rparr>\<rparr>) w)"
  using assms
  apply (simp add: on_min_change_def Let_def)
  apply (rule upd_panel_cong)
  apply (simp add: sb_blockSignals_def QDoubleSpinBox_setValue_def)
  done

lemma on_max_change_rejected:
  assumes "i < length (parameters w)"
    and "sb_value (tmax (parameters w ! i)) \<le> sb_value (tmin (parameters w ! i))"
  shows "on_max_change cb i w =
     Inr (upd_panel i (\<lambda>p. p\<lparr>tmax := (tmax p)
            \<lparr>sb_value := bound (tmax p) (rounded (snd (m_limits (mstate w) (par p)))),
              sb_blocked := False\<rparr>\<rparr>) w)"
  using assms
  apply (simp add: on_max_change_def Let_def)
  apply (rule upd_panel_cong)
  apply (simp add: sb_blockSignals_def QDoubleSpinBox_setValue_def)
  done



section \<open>The claims\<close>

subsection \<open>The slider\<close>

text \<open>
  Claim C1 does not hold of the code. A new slider is given the window \<open>[-2.0, 0.6]\<close> by
  \<^verbatim>\<open>setMaximum(0.6)\<close> and \<^verbatim>\<open>setMinimum(-2.0)\<close>, and a listener records what it is sent. Then
  \<^verbatim>\<open>setValue(1.0)\<close>, with a value above the window, stores \<^verbatim>\<open>_max\<close>, moves the handle to the
  top, and the slot of \<^verbatim>\<open>valueChanged\<close> replaces the stored value by the value of the top
  position, \<open>-2.0 + 1.0 * (0.6 - -2.0)\<close>. In float arithmetic this is the float next above
  \<open>0.6\<close>: the value of the slider ends above its maximum, and this number, not the
  maximum, is what the listener receives, twice.
\<close>

theorem setValue_above_max_overshoots:
  "fl (3 / 5) = 5404319552844595 / 2 ^ 53
   \<and> map_sum id (\<lambda>(s, d). (s_min s, s_max s, value s, d))
        (bindE (setMaximum lone (fl (3 / 5)) (FloatSlider_init, []))
           (\<lambda>w. bindE (setMinimum lone (- 2) w) (setValue lone 1)))
      = Inr (- 2, 5404319552844595 / 2 ^ 53, 5404319552844596 / 2 ^ 53,
             [5404319552844596 / 2 ^ 53, 5404319552844596 / 2 ^ 53])"
proof -
  have f1: "fl (3 / 5) = 5404319552844595 / 9007199254740992"
    using fl_val [of "- 1" "3 / 5" 5404319552844595] by (simp add: power_int_minus)
  have f2: "fl (1 / 2) = 1 / 2"
    using fl_val [of "- 1" "1 / 2" 4503599627370496] by (simp add: power_int_minus)
  have f3: "fl (5404319552844595 / 9007199254740992) = 5404319552844595 / 9007199254740992"
    using fl_val [of "- 1" "5404319552844595 / 9007199254740992" 5404319552844595] by (simp add: power_int_minus)
  have f4: "fl (4503599627370496 / 5404319552844595) = 7505999378950827 / 9007199254740992"
    using fl_val [of "- 1" "4503599627370496 / 5404319552844595" 7505999378950827] by (simp add: power_int_minus)
  have f5: "fl (2932031007402666796875 / 35184372088832) = 2796202666666667 / 33554432"
    using fl_val [of 26 "2932031007402666796875 / 35184372088832" 5592405333333334] by (simp add: power_int_minus)
  have f6: "fl (5 / 2) = 5 / 2"
    using fl_val [of 1 "5 / 2" 5629499534213120] by (simp add: power_int_minus)
  have f7: "fl (23418718062326579 / 9007199254740992) = 5854679515581645 / 2251799813685248"
    using fl_val [of 1 "23418718062326579 / 9007199254740992" 5854679515581645] by (simp add: power_int_minus)
  have f8: "fl (1125899906842624 / 1170935903116329) = 4330384257087015 / 4503599627370496"
    using fl_val [of "- 1" "1125899906842624 / 1170935903116329" 8660768514174030] by (simp add: power_int_minus)
  have f9: "fl (1691556350424615234375 / 17592186044416) = 806596923076923 / 8388608"
    using fl_val [of 26 "1691556350424615234375 / 17592186044416" 6452775384615384] by (simp add: power_int_minus)
  have f10: "fl 100000000 = 100000000"
    using fl_val [of 26 "100000000" 6710886400000000] by (simp add: power_int_minus)
  have f11: "fl 1 = 1"
    using fl_val [of 0 "1" 4503599627370496] by (simp add: power_int_minus)
  have f12: "fl (5854679515581645 / 2251799813685248) = 5854679515581645 / 2251799813685248"
    using fl_val [of 1 "5854679515581645 / 2251799813685248" 5854679515581645] by (simp add: power_int_minus)
  have f13: "fl (1351079888211149 / 2251799813685248) = 1351079888211149 / 2251799813685248"
    using fl_val [of "- 1" "1351079888211149 / 2251799813685248" 5404319552844596] by (simp add: power_int_minus)
  have a: "setMaximum lone (fl (3 / 5))
        (FloatSlider_init, []) =
      Inr (\<lparr>pos = 83333333, s_min = 0, s_max = 5404319552844595 / 9007199254740992, s_value = 1 / 2, label = None,
          blocked = False, enabled = True, tracking = True, emitted = []\<rparr>, [])"
    by (simp add: setMinimum_lone setMaximum_lone setValue_lone moved_def placed_def clamped_def Let_def
        py_int_def int_to_float_def fadd_def fsub_def fdiv_def fmul_def FloatSlider_init_def
        f1 f2 f3 f4 f5 f6 f7 f8 f9 f10 f11 f12 f13)
  have b: "setMinimum lone (- 2)
        (\<lparr>pos = 83333333, s_min = 0, s_max = 5404319552844595 / 9007199254740992, s_value = 1 / 2, label = None,
          blocked = False, enabled = True, tracking = True, emitted = []\<rparr>, []) =
      Inr (\<lparr>pos = 96153846, s_min = - 2, s_max = 5404319552844595 / 9007199254740992, s_value = 1 / 2, label = None,
          blocked = False, enabled = True, tracking = True, emitted = []\<rparr>, [])"
    by (simp add: setMinimum_lone setMaximum_lone setValue_lone moved_def placed_def clamped_def Let_def
        py_int_def int_to_float_def fadd_def fsub_def fdiv_def fmul_def
        f1 f2 f3 f4 f5 f6 f7 f8 f9 f10 f11 f12 f13)
  have c: "setValue lone 1
        (\<lparr>pos = 96153846, s_min = - 2, s_max = 5404319552844595 / 9007199254740992, s_value = 1 / 2, label = None,
          blocked = False, enabled = True, tracking = True, emitted = []\<rparr>, []) =
      Inr (\<lparr>pos = 100000000, s_min = - 2, s_max = 5404319552844595 / 9007199254740992, s_value = 1351079888211149 / 2251799813685248, label = Some (1351079888211149 / 2251799813685248),
          blocked = False, enabled = True, tracking = True, emitted = [1351079888211149 / 2251799813685248, 1351079888211149 / 2251799813685248]\<rparr>, [1351079888211149 / 2251799813685248, 1351079888211149 / 2251799813685248])"
    by (simp add: setMinimum_lone setMaximum_lone setValue_lone moved_def placed_def clamped_def Let_def
        py_int_def int_to_float_def fadd_def fsub_def fdiv_def fmul_def
        f1 f2 f3 f4 f5 f6 f7 f8 f9 f10 f11 f12 f13)
  have "map_sum id (\<lambda>(s, d). (s_min s, s_max s, value s, d))
        (bindE (setMaximum lone (fl (3 / 5)) (FloatSlider_init, []))
           (\<lambda>w. bindE (setMinimum lone (- 2) w) (setValue lone 1)))
      = Inr (- 2, 5404319552844595 / 2 ^ 53, 5404319552844596 / 2 ^ 53,
             [5404319552844596 / 2 ^ 53, 5404319552844596 / 2 ^ 53])"
    unfolding a bindE_simps b c by (simp add: value_def)
  then show ?thesis by (simp add: f1)
qed

subsection \<open>The position of a value\<close>

text \<open>
  Claim C4, as amended. For \<open>min < max\<close> and \<open>min \<le> v \<le> max\<close>, when the float difference
  \<open>max - min\<close> is finite (below \<open>2^1024\<close>), \<^verbatim>\<open>_float_to_int\<close> returns the position
  \<open>int((v - min) / (max - min) * 1e8)\<close>: the product, computed in float arithmetic,
  truncated and not rounded to the nearest integer. The position lies in \<open>0 .. 10^8\<close>.
\<close>

theorem float_to_int_truncates:
  assumes "s_min s < s_max s" and "s_min s \<le> v" and "v \<le> s_max s"
    and "fsub (s_max s) (s_min s) < 2 ^ 1024"
  shows "\<exists>p. float_to_int s v = Inr p
           \<and> p = \<lfloor>fmul (fdiv (fsub v (s_min s)) (fsub (s_max s) (s_min s))) (10 ^ 8)\<rfloor>
           \<and> 0 \<le> p \<and> p \<le> 10 ^ 8"
proof -
  let ?a = "fsub v (s_min s)"
  let ?b = "fsub (s_max s) (s_min s)"
  let ?x = "fmul (fdiv ?a ?b) (10 ^ 8)"
  have b: "0 < ?b" using assms(1) by (rule fsub_pos)
  have a0: "0 \<le> ?a" using assms(2) by (rule fsub_nonneg)
  have ab: "?a \<le> ?b" using assms(3) by (rule fsub_mono)
  have q0: "0 \<le> fdiv ?a ?b"
    unfolding fdiv_def using a0 b by (intro fl_nonneg) simp
  have "?a / ?b \<le> 1" using ab b by simp
  then have "fl (?a / ?b) \<le> fl 1" by (rule fl_mono)
  then have q1: "fdiv ?a ?b \<le> 1" by (simp add: fdiv_def)
  have x0: "0 \<le> ?x" unfolding fmul_def using q0 by (intro fl_nonneg) simp
  have "fdiv ?a ?b * 10 ^ 8 \<le> 1 * 10 ^ 8" using q1 by (intro mult_right_mono) simp_all
  then have "fl (fdiv ?a ?b * 10 ^ 8) \<le> fl (10 ^ 8)" by (intro fl_mono) simp
  then have x1: "?x \<le> 10 ^ 8" by (simp add: fmul_def)
  have p: "float_to_int s v = Inr \<lfloor>?x\<rfloor>"
    using assms(1) x0 by (simp add: float_to_int_def py_int_nonneg)
  have f0: "0 \<le> \<lfloor>?x\<rfloor>" using x0 by simp
  have f1: "\<lfloor>?x\<rfloor> \<le> 10 ^ 8"
  proof -
    have "\<lfloor>?x\<rfloor> \<le> \<lfloor>(10 ^ 8 :: real)\<rfloor>" using x1 by (rule floor_mono)
    also have "\<lfloor>(10 ^ 8 :: real)\<rfloor> = 10 ^ 8" by simp
    finally show ?thesis .
  qed
  show ?thesis using p f0 f1 by simp
qed

text \<open>
  In the window \<open>[-2.0, 0.6]\<close> the value \<open>-1.997166416\<close> is at position \<open>108983\<close>; the
  quotient of the real numbers lies between \<open>108984\<close> and \<open>108985\<close>.
\<close>

theorem float_to_int_truncates_witness:
  "s_min (FloatSlider_init\<lparr>s_min := - 2, s_max := fl (3 / 5)\<rparr>)
     < s_max (FloatSlider_init\<lparr>s_min := - 2, s_max := fl (3 / 5)\<rparr>)
   \<and> s_min (FloatSlider_init\<lparr>s_min := - 2, s_max := fl (3 / 5)\<rparr>) \<le> fl (- (1997166416 / 10 ^ 9))
   \<and> fl (- (1997166416 / 10 ^ 9)) \<le> s_max (FloatSlider_init\<lparr>s_min := - 2, s_max := fl (3 / 5)\<rparr>)
   \<and> fsub (s_max (FloatSlider_init\<lparr>s_min := - 2, s_max := fl (3 / 5)\<rparr>))
         (s_min (FloatSlider_init\<lparr>s_min := - 2, s_max := fl (3 / 5)\<rparr>)) < 2 ^ 1024
   \<and> float_to_int (FloatSlider_init\<lparr>s_min := - 2, s_max := fl (3 / 5)\<rparr>)
         (fl (- (1997166416 / 10 ^ 9))) = Inr 108983"
proof -
  have f1: "fl (3 / 5) = 5404319552844595 / 9007199254740992"
    using fl_val [of "- 1" "3 / 5" 5404319552844595] by (simp add: power_int_minus)
  have f2: "fl (- (124822901 / 62500000)) = - (8994437926894469 / 4503599627370496)"
    using fl_val [of 0 "- (124822901 / 62500000)" "- 8994437926894469"] by (simp add: power_int_minus)
  have f3: "fl (12761327846523 / 4503599627370496) = 12761327846523 / 4503599627370496"
    using fl_val [of "- 9" "12761327846523 / 4503599627370496" 6533799857419776] by (simp add: power_int_minus)
  have f4: "fl (23418718062326579 / 9007199254740992) = 5854679515581645 / 2251799813685248"
    using fl_val [of 1 "23418718062326579 / 9007199254740992" 5854679515581645] by (simp add: power_int_minus)
  have f5: "fl (4253775948841 / 3903119677054430) = 628249986290363 / 576460752303423488"
    using fl_val [of "- 10" "4253775948841 / 3903119677054430" 5025999890322904] by (simp add: power_int_minus)
  have f6: "fl (245410150894673046875 / 2251799813685248) = 7489323452596223 / 68719476736"
    using fl_val [of 16 "245410150894673046875 / 2251799813685248" 7489323452596223] by (simp add: power_int_minus)
  let ?s = "FloatSlider_init\<lparr>s_min := - 2, s_max := fl (3 / 5)\<rparr>"
  let ?v = "fl (- (1997166416 / 10 ^ 9))"
  have h: "s_min ?s < s_max ?s" "s_min ?s \<le> ?v" "?v \<le> s_max ?s"
    "fsub (s_max ?s) (s_min ?s) < 2 ^ 1024"
    by (simp_all add: fsub_def f1 f2 f3 f4 f5 f6)
  have "\<lfloor>fmul (fdiv (fsub ?v (s_min ?s)) (fsub (s_max ?s) (s_min ?s))) (10 ^ 8)\<rfloor> = 108983"
    by (simp add: fmul_def fdiv_def fsub_def f1 f2 f3 f4 f5 f6)
  then show ?thesis
    using float_to_int_truncates [OF h] h by simp
qed

text \<open>
  The claim as stated fails: in the window \<open>[0, 1]\<close> the product for the value \<open>1.9e-8\<close> is
  \<open>1.9000000000000001\<close>; the code returns position \<open>1\<close>, the nearest integer is \<open>2\<close>.
\<close>

theorem float_to_int_not_nearest:
  "s_min FloatSlider_init < s_max FloatSlider_init
   \<and> s_min FloatSlider_init \<le> fl (19 / 10 ^ 9) \<and> fl (19 / 10 ^ 9) \<le> s_max FloatSlider_init
   \<and> float_to_int FloatSlider_init (fl (19 / 10 ^ 9)) = Inr 1
   \<and> round (fmul (fdiv (fsub (fl (19 / 10 ^ 9)) (s_min FloatSlider_init))
                    (fsub (s_max FloatSlider_init) (s_min FloatSlider_init))) (10 ^ 8)) = (2 :: int)"
proof -
  have g1: "fl (19 / 1000000000) = 5742397643169489 / 302231454903657293676544"
    using fl_val [of "- 26" "19 / 1000000000" 5742397643169489] by (simp add: power_int_minus)
  have g2: "fl (5742397643169489 / 302231454903657293676544) = 5742397643169489 / 302231454903657293676544"
    using fl_val [of "- 26" "5742397643169489 / 302231454903657293676544" 5742397643169489] by (simp add: power_int_minus)
  have g3: "fl 1 = 1"
    using fl_val [of 0 "1" 4503599627370496] by (simp add: power_int_minus)
  have g4: "fl (2243124079363081640625 / 1180591620717411303424) = 8556839292003943 / 4503599627370496"
    using fl_val [of 0 "2243124079363081640625 / 1180591620717411303424" 8556839292003943] by (simp add: power_int_minus)
  show ?thesis
    by (simp add: FloatSlider_init_def float_to_int_def py_int_def round_def
        fmul_def fdiv_def fsub_def g1 g2 g3 g4)
qed

subsection \<open>Changing the window\<close>

text \<open>
  Claim C9 does not hold of the code. A new slider is given the lower bound \<open>-2.0\<close> and the
  value \<open>0.8\<close>, in the window \<open>[-2.0, 1.0]\<close>. Then \<^verbatim>\<open>setMaximum(0.6)\<close> sets the upper bound
  and calls \<^verbatim>\<open>setValue(0.8)\<close>, whose clamp to the new maximum is replaced, by the slot of
  \<^verbatim>\<open>valueChanged\<close>, by the value of the top position: the float next above \<open>0.6\<close>. The
  value is left outside the new window.
\<close>

theorem setMaximum_leaves_value_outside:
  "fl (3 / 5) = 5404319552844595 / 2 ^ 53
   \<and> map_sum id (\<lambda>(s, d). (s_min s, s_max s, value s))
        (bindE (setMinimum lone (- 2) (FloatSlider_init, []))
           (\<lambda>w. bindE (setValue lone (fl (4 / 5)) w) (setMaximum lone (fl (3 / 5)))))
      = Inr (- 2, 5404319552844595 / 2 ^ 53, 5404319552844596 / 2 ^ 53)"
proof -
  have g1: "fl (3 / 5) = 5404319552844595 / 9007199254740992"
    using fl_val [of "- 1" "3 / 5" 5404319552844595] by (simp add: power_int_minus)
  have g2: "fl (4 / 5) = 3602879701896397 / 4503599627370496"
    using fl_val [of "- 1" "4 / 5" 7205759403792794] by (simp add: power_int_minus)
  have g3: "fl (5 / 2) = 5 / 2"
    using fl_val [of 1 "5 / 2" 5629499534213120] by (simp add: power_int_minus)
  have g4: "fl 3 = 3"
    using fl_val [of 1 "3" 6755399441055744] by (simp add: power_int_minus)
  have g5: "fl (5 / 6) = 7505999378950827 / 9007199254740992"
    using fl_val [of "- 1" "5 / 6" 7505999378950827] by (simp add: power_int_minus)
  have g6: "fl (2932031007402666796875 / 35184372088832) = 2796202666666667 / 33554432"
    using fl_val [of 26 "2932031007402666796875 / 35184372088832" 5592405333333334] by (simp add: power_int_minus)
  have g7: "fl (12610078956637389 / 4503599627370496) = 3152519739159347 / 1125899906842624"
    using fl_eqI [of 1 "12610078956637389 / 4503599627370496"] by (simp add: power_int_minus rne_def Let_def)
  have g8: "fl (3152519739159347 / 3377699720527872) = 8406719304424925 / 9007199254740992"
    using fl_val [of "- 1" "3152519739159347 / 3377699720527872" 8406719304424925] by (simp add: power_int_minus)
  have g9: "fl (3283874728290986328125 / 35184372088832) = 6263493973333333 / 67108864"
    using fl_val [of 26 "3283874728290986328125 / 35184372088832" 6263493973333333] by (simp add: power_int_minus)
  have g10: "fl 100000000 = 100000000"
    using fl_val [of 26 "100000000" 6710886400000000] by (simp add: power_int_minus)
  have g11: "fl 1 = 1"
    using fl_val [of 0 "1" 4503599627370496] by (simp add: power_int_minus)
  have g12: "fl (23418718062326579 / 9007199254740992) = 5854679515581645 / 2251799813685248"
    using fl_val [of 1 "23418718062326579 / 9007199254740992" 5854679515581645] by (simp add: power_int_minus)
  have g13: "fl (5854679515581645 / 2251799813685248) = 5854679515581645 / 2251799813685248"
    using fl_val [of 1 "5854679515581645 / 2251799813685248" 5854679515581645] by (simp add: power_int_minus)
  have g14: "fl (1351079888211149 / 2251799813685248) = 1351079888211149 / 2251799813685248"
    using fl_val [of "- 1" "1351079888211149 / 2251799813685248" 5404319552844596] by (simp add: power_int_minus)
  have a: "setMinimum lone (- 2)
        (FloatSlider_init, []) =
      Inr (\<lparr>pos = 83333333, s_min = - 2, s_max = 1, s_value = 1 / 2, label = None,
          blocked = False, enabled = True, tracking = True, emitted = []\<rparr>, [])"
    by (simp add: setMinimum_lone setMaximum_lone setValue_lone moved_def placed_def clamped_def Let_def
        py_int_def int_to_float_def fadd_def fsub_def fdiv_def fmul_def FloatSlider_init_def
        g1 g2 g3 g4 g5 g6 g7 g8 g9 g10 g11 g12 g13 g14)
  have b: "setValue lone (fl (4 / 5))
        (\<lparr>pos = 83333333, s_min = - 2, s_max = 1, s_value = 1 / 2, label = None,
          blocked = False, enabled = True, tracking = True, emitted = []\<rparr>, []) =
      Inr (\<lparr>pos = 93333333, s_min = - 2, s_max = 1, s_value = 3602879701896397 / 4503599627370496, label = None,
          blocked = False, enabled = True, tracking = True, emitted = []\<rparr>, [])"
    by (simp add: setMinimum_lone setMaximum_lone setValue_lone moved_def placed_def clamped_def Let_def
        py_int_def int_to_float_def fadd_def fsub_def fdiv_def fmul_def
        g1 g2 g3 g4 g5 g6 g7 g8 g9 g10 g11 g12 g13 g14)
  have c: "setMaximum lone (fl (3 / 5))
        (\<lparr>pos = 93333333, s_min = - 2, s_max = 1, s_value = 3602879701896397 / 4503599627370496, label = None,
          blocked = False, enabled = True, tracking = True, emitted = []\<rparr>, []) =
      Inr (\<lparr>pos = 100000000, s_min = - 2, s_max = 5404319552844595 / 9007199254740992, s_value = 1351079888211149 / 2251799813685248, label = Some (1351079888211149 / 2251799813685248),
          blocked = False, enabled = True, tracking = True, emitted = [1351079888211149 / 2251799813685248, 1351079888211149 / 2251799813685248]\<rparr>, [1351079888211149 / 2251799813685248, 1351079888211149 / 2251799813685248])"
    by (simp add: setMinimum_lone setMaximum_lone setValue_lone moved_def placed_def clamped_def Let_def
        py_int_def int_to_float_def fadd_def fsub_def fdiv_def fmul_def
        g1 g2 g3 g4 g5 g6 g7 g8 g9 g10 g11 g12 g13 g14)
  have "map_sum id (\<lambda>(s, d). (s_min s, s_max s, value s))
        (bindE (setMinimum lone (- 2) (FloatSlider_init, []))
           (\<lambda>w. bindE (setValue lone (fl (4 / 5)) w) (setMaximum lone (fl (3 / 5)))))
      = Inr (- 2, 5404319552844595 / 2 ^ 53, 5404319552844596 / 2 ^ 53)"
    unfolding a bindE_simps b c by (simp add: value_def)
  then show ?thesis by (simp add: g1)
qed

subsection \<open>The fix and fit toggles\<close>

text \<open>
  Claim C2. In a window whose panels are well formed (panel \<open>i\<close> is the panel of
  parameter \<open>i\<close>, every slider has \<open>min < max\<close>) and in which no panel is both fixed and
  selected for the fit: a click that checks "fix" marks the parameter fixed in the
  minimizer and leaves "fit" unchecked; a click that checks "fit" leaves "fix" unchecked
  and the parameter not fixed in the minimizer; and after every sequence of clicks on the
  fix and fit buttons of its panels, no panel has both buttons checked and no parameter
  that is fixed in the minimizer is selected for the fit. A click either returns or is
  aborted by the plot routine raising while \<^verbatim>\<open>raise_on_exception\<close> is set.
\<close>

theorem toggles_keep_exclusive:
  assumes "wfw w" and "exclusive w" and "0 < n"
    and "\<forall>t \<in> set ts. panel_of t < length (parameters w)"
  shows "(\<forall>i < length (parameters w). \<not> fix_checked (parameters w ! i) \<longrightarrow>
            fix_checked (parameters (click_fix i w) ! i)
            \<and> m_fixed (mstate (click_fix i w)) (par (parameters (click_fix i w) ! i))
            \<and> \<not> fit_checked (parameters (click_fix i w) ! i))
       \<and> (\<forall>i < length (parameters w). \<not> fit_checked (parameters w ! i) \<longrightarrow>
            outcome E (click_fit E n i w)
              (\<lambda>w'. fit_checked (parameters w' ! i) \<and> \<not> fix_checked (parameters w' ! i)
                     \<and> \<not> m_fixed (mstate w') (par (parameters w' ! i))))
       \<and> outcome E (toggles E n ts w)
            (\<lambda>w'. exclusive w' \<and> wfw w' \<and> length (parameters w') = length (parameters w))"
proof (intro conjI allI impI)
  fix i assume "i < length (parameters w)" "\<not> fix_checked (parameters w ! i)"
  then show "fix_checked (parameters (click_fix i w) ! i)"
    "m_fixed (mstate (click_fix i w)) (par (parameters (click_fix i w) ! i))"
    "\<not> fit_checked (parameters (click_fix i w) ! i)"
    by (simp_all add: click_fix_simps)
next
  fix i assume i: "i < length (parameters w)" and nf: "\<not> fit_checked (parameters w ! i)"
  obtain k where n: "n = Suc k" using assms(3) by (cases n) simp_all
  let ?w1 = "fit_toggled i w"
  have i1: "i < length (parameters ?w1)" using i by (simp add: fit_toggled_simps)
  show "outcome E (click_fit E n i w)
          (\<lambda>w'. fit_checked (parameters w' ! i) \<and> \<not> fix_checked (parameters w' ! i)
                 \<and> \<not> m_fixed (mstate w') (par (parameters w' ! i)))"
    unfolding n
  proof (rule outcome_mono [OF click_fit_outcome [OF assms(1) i]])
    fix a assume "\<exists>c. a = (settled E ?w1)\<lparr>canvas := c\<rparr>"
    then obtain c where a: "a = (settled E ?w1)\<lparr>canvas := c\<rparr>" by blast
    show "fit_checked (parameters a ! i) \<and> \<not> fix_checked (parameters a ! i)
            \<and> \<not> m_fixed (mstate a) (par (parameters a ! i))"
      using i nf by (simp add: a settled_fields [OF i1] fit_toggled_simps)
  qed
next
  obtain k where n: "n = Suc k" using assms(3) by (cases n) simp_all
  show "outcome E (toggles E n ts w)
          (\<lambda>w'. exclusive w' \<and> wfw w' \<and> length (parameters w') = length (parameters w))"
    unfolding n by (rule toggles_outcome [OF assms(1,2,4)])
qed

theorem toggles_keep_exclusive_witness:
  "MainWindow_init E0 m0 = Inr W0 \<and> wfw W0 \<and> exclusive W0
   \<and> (\<exists>w'. toggles E0 1 [Fit 0, Fix 0, Fit 0] W0 = Inr w' \<and> exclusive w' \<and> wfw w')"
proof -
  have h: "\<forall>t \<in> set [Fit 0, Fix 0, Fit 0]. panel_of t < length (parameters W0)"
    by (simp add: W0_def)
  have "outcome E0 (toggles E0 1 [Fit 0, Fix 0, Fit 0] W0)
          (\<lambda>w'. exclusive w' \<and> wfw w' \<and> length (parameters w') = length (parameters W0))"
    using toggles_keep_exclusive [OF wfw_W0 exclusive_W0 _ h, of 1 E0] by simp
  then show ?thesis
    using outcome_returns [OF _ E0_never_aborts] MainWindow_init_m0 wfw_W0 exclusive_W0
    by fastforce
qed

text \<open>
  Claim C10. For a parameter that is fixed (in the minimizer and on its "fix" button) and
  not selected for the fit: the click that checks "fit" disables the slider, unchecks
  "fix" and sets the fixed flag of the minimizer to false; the next click, which unchecks
  "fit", enables the slider again, and leaves the fixed flag false and "fix" unchecked.
\<close>

theorem unchecking_fit_leaves_unfixed:
  assumes "wfw w" and "i < length (parameters w)" and "0 < n"
    and "m_fixed (mstate w) (par (parameters w ! i))"
    and "fix_checked (parameters w ! i)" and "\<not> fit_checked (parameters w ! i)"
  shows "outcome E (click_fit E n i w)
           (\<lambda>w1. fit_checked (parameters w1 ! i)
                \<and> \<not> enabled (slider (parameters w1 ! i))
                \<and> \<not> m_fixed (mstate w1) (par (parameters w1 ! i))
                \<and> \<not> fix_checked (parameters w1 ! i)
                \<and> outcome E (click_fit E n i w1)
                    (\<lambda>w2. \<not> fit_checked (parameters w2 ! i)
                         \<and> enabled (slider (parameters w2 ! i))
                         \<and> \<not> m_fixed (mstate w2) (par (parameters w2 ! i))
                         \<and> \<not> fix_checked (parameters w2 ! i)))"
proof -
  obtain k where n: "n = Suc k" using assms(3) by (cases n) simp_all
  let ?w1 = "fit_toggled i w"
  have i1: "i < length (parameters ?w1)" using assms(2) by (simp add: fit_toggled_simps)
  have wf1: "wfw ?w1" by (rule wfw_fit_toggled [OF assms(1,2)])
  show ?thesis
    unfolding n
  proof (rule outcome_mono [OF click_fit_outcome [OF assms(1,2)]])
    fix a assume "\<exists>c. a = (settled E ?w1)\<lparr>canvas := c\<rparr>"
    then obtain c where a: "a = (settled E ?w1)\<lparr>canvas := c\<rparr>" by blast
    have ka: "kept ?w1 a" using kept_settled [of ?w1 E] a by simp
    have wfa: "wfw a" using kept_wfw [OF ka] wf1 by simp
    have ia: "i < length (parameters a)" using kept_length [OF ka] i1 by simp
    have fa: "fit_checked (parameters a ! i)" "\<not> enabled (slider (parameters a ! i))"
      "\<not> m_fixed (mstate a) (par (parameters a ! i))" "\<not> fix_checked (parameters a ! i)"
      using assms(2,6) by (simp_all add: a settled_fields [OF i1] fit_toggled_simps)
    let ?a1 = "fit_toggled i a"
    have ia1: "i < length (parameters ?a1)" using ia by (simp add: fit_toggled_simps)
    have "outcome E (click_fit E (Suc k) i a)
        (\<lambda>w2. \<not> fit_checked (parameters w2 ! i) \<and> enabled (slider (parameters w2 ! i))
             \<and> \<not> m_fixed (mstate w2) (par (parameters w2 ! i))
             \<and> \<not> fix_checked (parameters w2 ! i))"
    proof (rule outcome_mono [OF click_fit_outcome [OF wfa ia]])
      fix b assume "\<exists>c. b = (settled E ?a1)\<lparr>canvas := c\<rparr>"
      then obtain c' where b: "b = (settled E ?a1)\<lparr>canvas := c'\<rparr>" by blast
      show "\<not> fit_checked (parameters b ! i) \<and> enabled (slider (parameters b ! i))
             \<and> \<not> m_fixed (mstate b) (par (parameters b ! i))
             \<and> \<not> fix_checked (parameters b ! i)"
        using fa ia by (simp add: b settled_fields [OF ia1] fit_toggled_simps)
    qed
    then show "fit_checked (parameters a ! i) \<and> \<not> enabled (slider (parameters a ! i))
        \<and> \<not> m_fixed (mstate a) (par (parameters a ! i)) \<and> \<not> fix_checked (parameters a ! i)
        \<and> outcome E (click_fit E (Suc k) i a)
            (\<lambda>w2. \<not> fit_checked (parameters w2 ! i) \<and> enabled (slider (parameters w2 ! i))
                 \<and> \<not> m_fixed (mstate w2) (par (parameters w2 ! i))
                 \<and> \<not> fix_checked (parameters w2 ! i))"
      using fa by simp
  qed
qed

theorem unchecking_fit_leaves_unfixed_witness:
  "wfw (click_fix 0 W0) \<and> 0 < length (parameters (click_fix 0 W0))
   \<and> m_fixed (mstate (click_fix 0 W0)) (par (parameters (click_fix 0 W0) ! 0))
   \<and> fix_checked (parameters (click_fix 0 W0) ! 0)
   \<and> \<not> fit_checked (parameters (click_fix 0 W0) ! 0)
   \<and> (\<exists>w1 w2. click_fit E0 1 0 (click_fix 0 W0) = Inr w1 \<and> click_fit E0 1 0 w1 = Inr w2
        \<and> fit_checked (parameters w1 ! 0) \<and> \<not> enabled (slider (parameters w1 ! 0))
        \<and> \<not> m_fixed (mstate w1) (par (parameters w1 ! 0))
        \<and> \<not> fit_checked (parameters w2 ! 0) \<and> enabled (slider (parameters w2 ! 0))
        \<and> \<not> m_fixed (mstate w2) (par (parameters w2 ! 0))
        \<and> \<not> fix_checked (parameters w2 ! 0))"
proof -
  let ?w = "click_fix 0 W0"
  have l0: "0 < length (parameters W0)" by (simp add: W0_def)
  have wf: "wfw ?w" by (rule wfw_click_fix [OF wfw_W0 l0])
  have l: "0 < length (parameters ?w)" using l0 by (simp add: click_fix_simps)
  have f: "m_fixed (mstate ?w) (par (parameters ?w ! 0))" "fix_checked (parameters ?w ! 0)"
    "\<not> fit_checked (parameters ?w ! 0)"
    using l0 by (simp_all add: click_fix_simps) (simp_all add: W0_def P0_def)
  note o = unchecking_fit_leaves_unfixed [OF wf l _ f, of 1 E0]
  from outcome_returns [OF o E0_never_aborts]
  obtain w1 where w1: "click_fit E0 1 0 ?w = Inr w1"
    and p1: "fit_checked (parameters w1 ! 0)" "\<not> enabled (slider (parameters w1 ! 0))"
      "\<not> m_fixed (mstate w1) (par (parameters w1 ! 0))"
    and o2: "outcome E0 (click_fit E0 1 0 w1)
                    (\<lambda>w2. \<not> fit_checked (parameters w2 ! 0)
                         \<and> enabled (slider (parameters w2 ! 0))
                         \<and> \<not> m_fixed (mstate w2) (par (parameters w2 ! 0))
                         \<and> \<not> fix_checked (parameters w2 ! 0))"
    by auto
  from outcome_returns [OF o2 E0_never_aborts]
  obtain w2 where "click_fit E0 1 0 w1 = Inr w2"
    "\<not> fit_checked (parameters w2 ! 0)" "enabled (slider (parameters w2 ! 0))"
    "\<not> m_fixed (mstate w2) (par (parameters w2 ! 0))" "\<not> fix_checked (parameters w2 ! 0)"
    by auto
  then show ?thesis using wf l f w1 p1 by blast
qed

subsection \<open>The Fit button\<close>

text \<open>
  Claim C8, as amended. After the Fit button, in a well-formed window, the minimizer
  holds the result of the selected algorithm; the slider of every panel holds the
  post-fit value of its parameter clamped into the window of the slider (the post-fit
  value itself when it lies in the window), the value label shows the post-fit value,
  and the window of the slider and the min/max fields are unchanged.
\<close>

theorem fit_button_refreshes_sliders:
  assumes "wfw w"
  shows "outcome E (click_fit_button E n w)
     (\<lambda>w'. mstate w' = run_algo E (algo_choice w) (mstate w)
         \<and> length (parameters w') = length (parameters w)
         \<and> (\<forall>i < length (parameters w).
               value (slider (parameters w' ! i)) =
                 (if m_values (mstate w') i < s_min (slider (parameters w ! i))
                    then s_min (slider (parameters w ! i))
                  else if m_values (mstate w') i > s_max (slider (parameters w ! i))
                    then s_max (slider (parameters w ! i))
                  else m_values (mstate w') i)
               \<and> label (slider (parameters w' ! i)) = Some (m_values (mstate w') i)
               \<and> s_min (slider (parameters w' ! i)) = s_min (slider (parameters w ! i))
               \<and> s_max (slider (parameters w' ! i)) = s_max (slider (parameters w ! i))
               \<and> tmin (parameters w' ! i) = tmin (parameters w ! i)
               \<and> tmax (parameters w' ! i) = tmax (parameters w ! i)))"
  unfolding click_fit_button_eq [OF assms]
  by (rule outcome_mono [OF plot_with_frame_drawn]) (simp add: fitted_def Let_def value_def)

theorem fit_button_refreshes_sliders_witness:
  "wfw W0 \<and> (\<exists>w'. click_fit_button E0 1 W0 = Inr w'
      \<and> m_values (mstate w') 0 = 10
      \<and> value (slider (parameters w' ! 0)) = 6
      \<and> label (slider (parameters w' ! 0)) = Some 10
      \<and> s_min (slider (parameters w' ! 0)) = 0 \<and> s_max (slider (parameters w' ! 0)) = 6
      \<and> sb_value (tmin (parameters w' ! 0)) = 4 \<and> sb_value (tmax (parameters w' ! 0)) = 6)"
proof -
  have a: "run_algo E0 (algo_choice W0) (mstate W0) = m0\<lparr>m_values := (\<lambda>_. 10)\<rparr>"
    by (simp add: run_algo_def W0_def E0_def)
  from outcome_returns [OF fit_button_refreshes_sliders [OF wfw_W0, of E0 1] E0_never_aborts]
  obtain w' where w': "click_fit_button E0 1 W0 = Inr w'"
    and m: "mstate w' = run_algo E0 (algo_choice W0) (mstate W0)"
    and p: "\<forall>i < length (parameters W0).
               value (slider (parameters w' ! i)) =
                 (if m_values (mstate w') i < s_min (slider (parameters W0 ! i))
                    then s_min (slider (parameters W0 ! i))
                  else if m_values (mstate w') i > s_max (slider (parameters W0 ! i))
                    then s_max (slider (parameters W0 ! i))
                  else m_values (mstate w') i)
               \<and> label (slider (parameters w' ! i)) = Some (m_values (mstate w') i)
               \<and> s_min (slider (parameters w' ! i)) = s_min (slider (parameters W0 ! i))
               \<and> s_max (slider (parameters w' ! i)) = s_max (slider (parameters W0 ! i))
               \<and> tmin (parameters w' ! i) = tmin (parameters W0 ! i)
               \<and> tmax (parameters w' ! i) = tmax (parameters W0 ! i)"
    by blast
  have v: "m_values (mstate w') 0 = 10" by (simp add: m a)
  have "0 < length (parameters W0)" by (simp add: W0_def)
  with p have p0: "value (slider (parameters w' ! 0)) =
                 (if m_values (mstate w') 0 < s_min (slider (parameters W0 ! 0))
                    then s_min (slider (parameters W0 ! 0))
                  else if m_values (mstate w') 0 > s_max (slider (parameters W0 ! 0))
                    then s_max (slider (parameters W0 ! 0))
                  else m_values (mstate w') 0)
               \<and> label (slider (parameters w' ! 0)) = Some (m_values (mstate w') 0)
               \<and> s_min (slider (parameters w' ! 0)) = s_min (slider (parameters W0 ! 0))
               \<and> s_max (slider (parameters w' ! 0)) = s_max (slider (parameters W0 ! 0))
               \<and> tmin (parameters w' ! 0) = tmin (parameters W0 ! 0)
               \<and> tmax (parameters w' ! 0) = tmax (parameters W0 ! 0)"
    by blast
  have "value (slider (parameters w' ! 0)) = 6 \<and> label (slider (parameters w' ! 0)) = Some 10
      \<and> s_min (slider (parameters w' ! 0)) = 0 \<and> s_max (slider (parameters w' ! 0)) = 6
      \<and> sb_value (tmin (parameters w' ! 0)) = 4 \<and> sb_value (tmax (parameters w' ! 0)) = 6"
    using p0 by (simp add: v W0_def P0_def)
  then show ?thesis using w' v wfw_W0 by blast
qed

text \<open>
  The claim as stated fails: for the parameter of value 5 without limits the slider has
  the window \<open>[0, 6]\<close>; when Migrad moves the value to 10, the slider holds 6.
\<close>

theorem fit_button_slider_differs:
  "MainWindow_init E0 m0 = Inr W0
   \<and> map_sum id (\<lambda>w'. (m_values (mstate w') 0, value (slider (parameters w' ! 0))))
        (click_fit_button E0 1 W0) = Inr (10, 6)"
proof -
  have a: "run_algo E0 Migrad m0 = m0\<lparr>m_values := (\<lambda>_. 10)\<rparr>"
    by (simp add: run_algo_def E0_def)
  have b: "visualize_ok E0 (m0\<lparr>m_values := (\<lambda>_. 10)\<rparr>)" by (simp add: E0_def)
  have "map_sum id (\<lambda>w'. (m_values (mstate w') 0, value (slider (parameters w' ! 0))))
        (click_fit_button E0 1 W0) = Inr (10, 6)"
    unfolding click_fit_button_eq [OF wfw_W0]
    by (simp add: plot_with_frame_def fitted_def W0_def a b P0_def value_def Let_def)
  then show ?thesis using MainWindow_init_m0 by simp
qed

subsection \<open>A parameter change while panels are selected for the fit\<close>

text \<open>
  Claim C5, as amended. When \<^verbatim>\<open>on_parameter_change()\<close> is called in a well-formed window
  with at least one "fit" button checked, the selected algorithm runs on the minimizer
  with the fixed flag of every parameter set to the negation of its panel's "fit" state,
  and afterwards the fixed flags are the ones saved before. Then the canvas is redrawn;
  the verdict (success or FAILURE) is part of the drawing only when the algorithm is not
  Simplex and the plot routine did not raise.
\<close>

theorem parameter_change_fits_selected:
  assumes "wfw w" and "list_ex fit_checked (parameters w)"
  shows "outcome E (on_parameter_change E cb False False w)
     (\<lambda>w'. mstate w' =
              (run_algo E (algo_choice w) ((mstate w)\<lparr>m_fixed := temp_fixed w\<rparr>))
                \<lparr>m_fixed := m_fixed (mstate w)\<rparr>
          \<and> (\<forall>i < length (parameters w). temp_fixed w i = (\<not> fit_checked (parameters w ! i)))
          \<and> canvas w' = drawn E True (algo_choice w \<noteq> Simplex) (mstate w'))"
proof -
  show ?thesis
    unfolding on_parameter_change_eq [OF assms(1)] using assms(2)
    apply simp
    apply (rule outcome_mono [OF plot_with_frame_drawn])
    apply (simp add: auto_fit_def Let_def temp_fixed_def reports_def)
    done
qed

theorem parameter_change_fits_selected_witness:
  "MainWindow_init E2 m2 = Inr W2
   \<and> wfw (fit_toggled 0 W2) \<and> list_ex fit_checked (parameters (fit_toggled 0 W2))
   \<and> \<not> m_fixed (mstate (fit_toggled 0 W2)) 1 \<and> temp_fixed (fit_toggled 0 W2) 1
   \<and> (\<exists>w'. on_parameter_change E2 (callback E2 0) False False (fit_toggled 0 W2) = Inr w'
         \<and> m_values (mstate w') 0 = 10 \<and> m_values (mstate w') 1 = 1 / 2
         \<and> \<not> m_fixed (mstate w') 0 \<and> \<not> m_fixed (mstate w') 1
         \<and> canvas w' = Plot True (Some ''success''))"
proof -
  let ?w = "fit_toggled 0 W2"
  have l: "0 < length (parameters W2)" by (simp add: W2_def)
  have wf: "wfw ?w" by (rule wfw_fit_toggled [OF wfw_W2 l])
  have p: "parameters ?w = [P0\<lparr>fit_checked := True, slider := (slider P0)\<lparr>enabled := False\<rparr>,
                                fix_checked := False\<rparr>, P1]"
    by (simp add: fit_toggled_def W2_def P0_def upd_panel_def upd_minuit_def Let_def)
  have c: "list_ex fit_checked (parameters ?w)" by (simp add: p)
  have a: "algo_choice ?w = Migrad" by (simp add: fit_toggled_def W2_def Let_def)
  have f: "m_fixed (mstate ?w) = (\<lambda>_. False)"
    by (simp add: fit_toggled_def W2_def P0_def m2_def upd_panel_def upd_minuit_def Let_def fun_eq_iff)
  have t: "\<not> temp_fixed ?w 0" "temp_fixed ?w 1"
    by (simp_all add: temp_fixed_def p) (simp add: P1_def)
  have v: "m_values (mstate ?w) 1 = 1 / 2"
    by (simp add: fit_toggled_def W2_def P0_def m2_def upd_panel_def upd_minuit_def Let_def)
  from outcome_returns [OF parameter_change_fits_selected [OF wf c, of E2 "callback E2 0"]
      E2_never_aborts]
  obtain w' where w': "on_parameter_change E2 (callback E2 0) False False ?w = Inr w'"
    and m: "mstate w' = (run_algo E2 (algo_choice ?w) ((mstate ?w)\<lparr>m_fixed := temp_fixed ?w\<rparr>))
                \<lparr>m_fixed := m_fixed (mstate ?w)\<rparr>"
    and d: "canvas w' = drawn E2 True (algo_choice ?w \<noteq> Simplex) (mstate w')"
    by blast
  have "m_values (mstate w') 0 = 10 \<and> m_values (mstate w') 1 = 1 / 2"
    using t v by (simp add: m a run_algo_def E2_def)
  moreover have "\<not> m_fixed (mstate w') 0 \<and> \<not> m_fixed (mstate w') 1" by (simp add: m f)
  moreover have "m_valid (mstate w') \<and> m_accurate (mstate w')"
    by (simp add: m a run_algo_def E2_def)
  then have "canvas w' = Plot True (Some ''success'')"
    by (simp add: d a drawn_def E2_def)
  ultimately show ?thesis using MainWindow_init_m2 wf c w' f t by auto
qed

text \<open>
  The claim as stated fails: with Simplex selected, the click that checks "fit" on the
  panel runs the fit and redraws, and the drawing has no verdict.
\<close>

theorem parameter_change_simplex_no_verdict:
  "MainWindow_init E0 m0 = Inr W0
   \<and> map_sum id (\<lambda>w'. (fit_checked (parameters w' ! 0), canvas w'))
        (click_fit E0 1 0 (W0\<lparr>algo_choice := Simplex\<rparr>)) = Inr (True, Plot True None)"
proof -
  let ?w = "W0\<lparr>algo_choice := Simplex\<rparr>"
  have l: "0 < length (parameters ?w)" by (simp add: W0_def)
  have wf: "wfw (fit_toggled 0 ?w)"
    by (rule wfw_fit_toggled) (simp_all add: wfw_def W0_def P0_def)
  have c: "list_ex fit_checked (parameters (fit_toggled 0 ?w))"
    by (simp add: fit_toggled_def W0_def P0_def upd_panel_def upd_minuit_def Let_def)
  have a: "algo_choice (fit_toggled 0 ?w) = Simplex"
    by (simp add: fit_toggled_def W0_def Let_def)
  have v: "visualize_ok E0 m" for m by (simp add: E0_def)
  have f: "fit_checked (parameters (auto_fit E0 (fit_toggled 0 ?w)) ! 0)"
    using fit_toggled_simps(1,2) [OF l]
    by (simp add: auto_fit_def Let_def) (simp add: W0_def P0_def)
  have "map_sum id (\<lambda>w'. (fit_checked (parameters w' ! 0), canvas w'))
        (click_fit E0 1 0 ?w) = Inr (True, Plot True None)"
    unfolding click_fit_eq [OF l] One_nat_def callback.simps on_parameter_change_eq [OF wf]
    using c f by (simp add: a reports_def plot_with_frame_def v)
  then show ?thesis using MainWindow_init_m0 by simp
qed

subsection \<open>Construction of a panel\<close>

text \<open>
  Claim C7. \<^verbatim>\<open>Parameter.__init__\<close> returns normally. Its step is \<open>1e-2 * (vmax - vmin)\<close>
  when both limits of the minimizer are finite and \<open>1e-2\<close> otherwise; the window it
  records as \<^verbatim>\<open>original_limits\<close>, which \<^verbatim>\<open>reset(limits=True)\<close> restores, has each finite
  limit as it is and each infinite limit replaced by the value minus (plus) 100 steps.
  For the value 5 and the limits \<open>(-inf, inf)\<close> the step is \<open>1e-2\<close> and the window is
  \<open>(4, 6)\<close>.
\<close>

theorem Parameter_init_working_window:
  "\<exists>P. Parameter_init m p = Inr P
     \<and> step P =
         (if isfinite (fst (m_limits m p)) \<and> isfinite (snd (m_limits m p))
          then fmul (fl (1 / 100))
                 (fsub (make_finite (snd (m_limits m p))) (make_finite (fst (m_limits m p))))
          else fl (1 / 100))
     \<and> fst (p_original_limits P) =
         (if isfinite (fst (m_limits m p)) then make_finite (fst (m_limits m p))
          else fsub (m_values m p) (fmul 100 (step P)))
     \<and> snd (p_original_limits P) =
         (if isfinite (snd (m_limits m p)) then make_finite (snd (m_limits m p))
          else fadd (m_values m p) (fmul 100 (step P)))
     \<and> original_value P = m_values m p
     \<and> (m_values m p = 5 \<and> m_limits m p = (MInf, PInf) \<longrightarrow>
          step P = fl (1 / 100) \<and> p_original_limits P = (4, 6))"
proof -
  obtain P where P: "Parameter_init m p = Inr P"
     "step P =
         (if isfinite (fst (m_limits m p)) \<and> isfinite (snd (m_limits m p))
          then fmul (fl (1 / 100))
                 (fsub (make_finite (snd (m_limits m p))) (make_finite (fst (m_limits m p))))
          else fl (1 / 100))"
     "fst (p_original_limits P) =
         (if isfinite (fst (m_limits m p)) then make_finite (fst (m_limits m p))
          else fsub (m_values m p) (fmul 100 (step P)))"
     "snd (p_original_limits P) =
         (if isfinite (snd (m_limits m p)) then make_finite (snd (m_limits m p))
          else fadd (m_values m p) (fmul 100 (step P)))"
     "original_value P = m_values m p"
    using Parameter_init_fields [of m p] by blast
  have "step P = fl (1 / 100) \<and> p_original_limits P = (4, 6)"
    if "m_values m p = 5 \<and> m_limits m p = (MInf, PInf)"
    using that P(2,3,4) by (simp add: isfinite_def prod_eq_iff window_m0)
  then show ?thesis using P by blast
qed

theorem Parameter_init_working_window_witness:
  "m_values m0 0 = 5 \<and> m_limits m0 0 = (MInf, PInf)
   \<and> (\<exists>P. Parameter_init m0 0 = Inr P \<and> step P = fl (1 / 100) \<and> p_original_limits P = (4, 6)
          \<and> original_value P = 5)"
proof -
  have h: "m_values m0 0 = 5" "m_limits m0 0 = (MInf, PInf)" by (simp_all add: m0_def)
  then show ?thesis using Parameter_init_working_window [of m0 0] by auto
qed

subsection \<open>The Reset button\<close>




subsection \<open>Edits of the limit fields\<close>

text \<open>
  Claim C6 does not hold of the code. In the window built for the parameter of value 5
  without limits, the fields hold 4 and 6 and the slider has the window \<open>[0, 6]\<close>. Typing
  7 into the lower field is rejected, and the field is left at the largest negative
  float, the value that Qt makes of the stored limit \<open>-inf\<close>. Typing 3 into the upper field
  is rejected in the same way and leaves the largest float there. After that, 7 in the
  lower field is below the upper field and is accepted: \<^verbatim>\<open>on_min_change\<close> calls
  \<^verbatim>\<open>slider.setMinimum(7)\<close>, which returns at once because 7 is not below the upper bound 6
  of the slider, and then writes the limits \<open>(7, inf)\<close> into the minimizer. The lower limit
  of the minimizer is 7 while the slider keeps its window \<open>[0, 6]\<close>.
\<close>

theorem limit_edit_field_and_window_differ:
  "MainWindow_init E0 m0 = Inr W0 \<and> m_limits (mstate W0) 0 = (MInf, PInf)
   \<and> map_sum id (\<lambda>w'. sb_value (tmin (parameters w' ! 0))) (edit_tmin E0 1 0 7 W0)
       = Inr (- float_max)
   \<and> map_sum id (\<lambda>w'. (sb_value (tmin (parameters w' ! 0)), sb_value (tmax (parameters w' ! 0)),
                         s_min (slider (parameters w' ! 0)), s_max (slider (parameters w' ! 0)),
                         m_limits (mstate w') 0))
        (bindE (edit_tmax E0 1 0 3 W0) (edit_tmin E0 1 0 7))
       = Inr (7, float_max, 0, 6, (Fin 7, PInf))"
proof -
  have fm: "- float_max < 3" "3 < float_max" "- float_max < 7" "7 < float_max"
    by (rule float_max_nums)+
  have lim: "m_limits (mstate W0) 0 = (MInf, PInf)" by (simp add: W0_def m0_def)
  have W0s: "parameters W0 = [P0]" "mstate W0 = m0" by (simp_all add: W0_def)
  have P0s: "sb_value (tmin P0) = 4" "sb_value (tmax P0) = 6" "par P0 = 0"
    "sb_minimum (tmin P0) = - float_max" "sb_maximum (tmin P0) = float_max"
    "sb_minimum (tmax P0) = - float_max" "sb_maximum (tmax P0) = float_max"
    "s_min (slider P0) = 0" "s_max (slider P0) = 6"
    by (simp_all add: P0_def)
  have m0s: "m_limits m0 0 = (MInf, PInf)" by (simp add: m0_def)
  let ?U = "W0\<lparr>parameters := [P0\<lparr>tmin := (tmin P0)\<lparr>sb_value := 7\<rparr>\<rparr>]\<rparr>"
  have u: "upd_panel 0 (\<lambda>p. p\<lparr>tmin := QDoubleSpinBox_setValue (Fin 7) (tmin p)\<rparr>) W0 = ?U"
    using fm by (simp add: upd_panel_def W0s QDoubleSpinBox_setValue_def rounded_def bound_def P0s)
  have ru: "edit_tmin E0 1 0 7 W0 = on_min_change (callback E0 1) 0 ?U"
    unfolding edit_tmin_def Let_def u by (simp add: W0s P0s)
  have eu: "on_min_change (callback E0 1) 0 ?U =
     Inr (upd_panel 0 (\<lambda>p. p\<lparr>tmin := (tmin p)
            \<lparr>sb_value := bound (tmin p) (rounded (fst (m_limits (mstate ?U) (par p)))),
              sb_blocked := False\<rparr>\<rparr>) ?U)"
    by (rule on_min_change_rejected) (simp_all add: P0s)
  have a: "map_sum id (\<lambda>w'. sb_value (tmin (parameters w' ! 0))) (edit_tmin E0 1 0 7 W0)
       = Inr (- float_max)"
    unfolding ru eu by (simp add: W0s P0s m0s bound_def rounded_def)
  let ?V = "W0\<lparr>parameters := [P0\<lparr>tmax := (tmax P0)\<lparr>sb_value := 3\<rparr>\<rparr>]\<rparr>"
  have v: "upd_panel 0 (\<lambda>p. p\<lparr>tmax := QDoubleSpinBox_setValue (Fin 3) (tmax p)\<rparr>) W0 = ?V"
    using fm by (simp add: upd_panel_def W0s QDoubleSpinBox_setValue_def rounded_def bound_def P0s)
  have rv: "edit_tmax E0 1 0 3 W0 = on_max_change (callback E0 1) 0 ?V"
    unfolding edit_tmax_def Let_def v by (simp add: W0s P0s)
  let ?R = "W0\<lparr>parameters := [P0\<lparr>tmax := (tmax P0)\<lparr>sb_value := float_max, sb_blocked := False\<rparr>\<rparr>]\<rparr>"
  have "on_max_change (callback E0 1) 0 ?V =
     Inr (upd_panel 0 (\<lambda>p. p\<lparr>tmax := (tmax p)
            \<lparr>sb_value := bound (tmax p) (rounded (snd (m_limits (mstate ?V) (par p)))),
              sb_blocked := False\<rparr>\<rparr>) ?V)"
    by (rule on_max_change_rejected) (simp_all add: P0s)
  then have er: "on_max_change (callback E0 1) 0 ?V = Inr ?R"
    by (simp add: upd_panel_def W0s P0s m0s bound_def rounded_def)
  let ?X = "W0\<lparr>parameters := [P0\<lparr>tmax := (tmax P0)\<lparr>sb_value := float_max, sb_blocked := False\<rparr>,
                                     tmin := (tmin P0)\<lparr>sb_value := 7\<rparr>\<rparr>]\<rparr>"
  have x: "upd_panel 0 (\<lambda>p. p\<lparr>tmin := QDoubleSpinBox_setValue (Fin 7) (tmin p)\<rparr>) ?R = ?X"
    using fm by (simp add: upd_panel_def QDoubleSpinBox_setValue_def rounded_def bound_def P0s)
  have rx: "edit_tmin E0 1 0 7 ?R = on_min_change (callback E0 1) 0 ?X"
    unfolding edit_tmin_def Let_def x by (simp add: P0s)
  have sx: "setMinimum (slider_at (callback E0 1) 0) 7 ?X = Inr ?X"
    by (simp add: setMinimum_def P0s)
  have ex: "on_min_change (callback E0 1) 0 ?X =
      Inr (upd_minuit (\<lambda>m. m\<lparr>m_limits := (m_limits m)(0 := (Fin 7, PInf))\<rparr>) ?X)"
    using fm unfolding on_min_change_def Let_def
    by (simp add: P0s sx [unfolded One_nat_def] W0s m0s)
  have b: "map_sum id (\<lambda>w'. (sb_value (tmin (parameters w' ! 0)), sb_value (tmax (parameters w' ! 0)),
                         s_min (slider (parameters w' ! 0)), s_max (slider (parameters w' ! 0)),
                         m_limits (mstate w') 0))
        (bindE (edit_tmax E0 1 0 3 W0) (edit_tmin E0 1 0 7))
       = Inr (7, float_max, 0, 6, (Fin 7, PInf))"
    unfolding rv er bindE_simps rx ex by (simp add: P0s)
  show ?thesis using MainWindow_init_m0 lim a b by blast
qed

end
